theory Spec2Isabelle
  imports Main
begin

section \<open>Data model of the bookings controller\<close>

text \<open>
  The development embeds \<^verbatim>\<open>src/controllers/bookings.controller.ts\<close>: the helper
  functions \<^verbatim>\<open>getListingTitle\<close> and \<^verbatim>\<open>hasDateConflict\<close> and the request handlers
  \<^verbatim>\<open>createBooking\<close> and \<^verbatim>\<open>cancelBooking\<close>.

  A valid JavaScript \<^verbatim>\<open>Date\<close> is its time value, the number of milliseconds since the
  epoch; an Invalid Date is \<open>None\<close> of \<open>date option\<close>. A MongoDB \<^verbatim>\<open>ObjectId\<close> is
  a natural number: only equality of identifiers is ever used, and an identifier string is
  never empty, so the test \<^verbatim>\<open>if (excludeBookingId)\<close> asks whether the optional argument
  was supplied.
\<close>

type_synonym date = int
type_synonym objectId = nat

text \<open>
  Modelled from the spec: the declarations of \<^verbatim>\<open>models/bookings/Booking.model\<close>
  (\<^verbatim>\<open>IBookingDocument\<close>, \<^verbatim>\<open>CreateBookingInput\<close>, \<^verbatim>\<open>CancelBookingInput\<close>) are not part of
  the sources. The booking status is the closed enumeration of the data model; the fields
  are those that the controller reads and writes. Lifecycle timestamps and the derived
  \<^verbatim>\<open>nights\<close> and \<^verbatim>\<open>totalGuests\<close> are maintained by the persistence layer (schema options
  and a pre-save hook) and are not fields of this model.
\<close>

datatype status = Pending | Confirmed | Cancelled | Completed

record BookingGuests =
  adults :: "int option"

record GuestDetails =
  name :: "string option"
  email :: "string option"

record BookingPricing =
  total :: int

record Booking =
  booking_id :: objectId
  bookingNumber :: nat
  listingType :: string
  listingId :: string
  listingTitle :: "string option"
  checkIn :: date
  checkOut :: date
  guests :: "BookingGuests option"
  guestDetails :: "GuestDetails option"
  specialRequests :: "string option"
  pricing :: BookingPricing
  status :: status
  paymentStatus :: string
  cancellationReason :: "string option"
  cancelledAt :: "date option"

text \<open>
  The request body of \<^verbatim>\<open>createBooking\<close>. A field that the handler tests for presence is
  optional: \<open>None\<close> is \<^verbatim>\<open>undefined\<close>.
\<close>

record CreateBookingInput =
  input_listingType :: "string option"
  input_listingId :: "string option"
  input_checkIn :: "string option"
  input_checkOut :: "string option"
  input_guests :: "BookingGuests option"
  input_guestDetails :: "GuestDetails option"
  input_specialRequests :: "string option"
  input_pricing :: BookingPricing

record CancelBookingInput =
  reason :: "string option"

subsection \<open>Responses\<close>

text \<open>
  \<^verbatim>\<open>sendError(res, message, statusCode, errors)\<close> is \<open>SendError message statusCode errors\<close>
  (no \<^verbatim>\<open>errors\<close> argument is the empty list); the 409 response that \<^verbatim>\<open>createBooking\<close>
  writes itself is \<open>ConflictResponse\<close> with the \<^verbatim>\<open>details\<close> object.
\<close>

record ConflictingBooking =
  conflict_id :: objectId
  conflict_checkIn :: string
  conflict_checkOut :: string

record ConflictDetails =
  requestedCheckIn :: "string option"
  requestedCheckOut :: "string option"
  conflictingBooking :: ConflictingBooking

datatype response_error =
    SendError string nat "(string \<times> string) list"
  | ConflictResponse ConflictDetails

record CancelResult =
  result_id :: objectId
  result_status :: status
  result_cancellationReason :: "string option"
  result_cancelledAt :: "date option"
  refundAmount :: int
  refundStatus :: string

subsection \<open>The store and the collaborators\<close>

text \<open>
  The bookings collection is the list of its documents in insertion order; \<open>nextId\<close> is
  the next fresh \<^verbatim>\<open>ObjectId\<close> and \<open>counter\<close> the durable counter behind
  \<^verbatim>\<open>getNextBookingNumber\<close>.
\<close>

record store =
  bookings :: "Booking list"
  counter :: nat
  nextId :: objectId

text \<open>An awaited promise either rejects (the \<^verbatim>\<open>await\<close> throws) or resolves to a value.\<close>

datatype 'a outcome = Throws | Returns 'a

datatype save_outcome =
    Saved
  | SchemaInvalid "(string \<times> string) list"
  | SaveFailed

text \<open>
  What one request sees of the world outside the controller: the clock (\<^verbatim>\<open>new Date()\<close>),
  the date parser (\<^verbatim>\<open>new Date(s)\<close>), the two listing stores queried with
  \<^verbatim>\<open>findById(id).select(...)\<close> (a document is represented by the selected field), and
  whether the database answers reads, the counter can be advanced and \<^verbatim>\<open>save()\<close> is
  accepted (a Mongoose \<^verbatim>\<open>ValidationError\<close> carries its field messages).
\<close>

record env =
  now :: date
  parseDate :: "string \<Rightarrow> date option"
  HomestayModel_findById :: "string \<Rightarrow> string option option outcome"
  GuideModel_findById :: "string \<Rightarrow> string option option outcome"
  dbAvailable :: bool
  counterAvailable :: bool
  saveOutcome :: save_outcome

section \<open>JavaScript primitives used by the controller\<close>

text \<open>\<^verbatim>\<open>!v\<close> on an optional string: \<^verbatim>\<open>undefined\<close> and the empty string are falsy.\<close>

definition truthy :: "string option \<Rightarrow> bool" where
  "truthy v = (case v of None \<Rightarrow> False | Some s \<Rightarrow> s \<noteq> [])"

text \<open>\<^verbatim>\<open>new Date(v)\<close>: \<^verbatim>\<open>undefined\<close> gives an Invalid Date.\<close>

definition newDate :: "env \<Rightarrow> string option \<Rightarrow> date option" where
  "newDate e v = (case v of None \<Rightarrow> None | Some s \<Rightarrow> parseDate e s)"

text \<open>
  \<^verbatim>\<open>a <= b\<close> on two dates compares the time values; a comparison with an Invalid Date
  (\<^verbatim>\<open>NaN\<close>) is false.
\<close>

definition date_le :: "date option \<Rightarrow> date option \<Rightarrow> bool" where
  "date_le a b = (case a of None \<Rightarrow> False
                  | Some x \<Rightarrow> (case b of None \<Rightarrow> False | Some y \<Rightarrow> x \<le> y))"

subsection \<open>\<^verbatim>\<open>toISOString().split('T')[0]\<close>\<close>

definition msPerDay :: int where
  "msPerDay = 86400000"

text \<open>
  The proleptic Gregorian date (year, month, day of month) of a day number counted from
  1970-01-01, by the era/day-of-era computation on 400-year cycles.
\<close>

definition civil_from_days :: "int \<Rightarrow> int \<times> int \<times> int" where
  "civil_from_days days =
     (let z = days + 719468;
          era = z div 146097;
          doe = z - era * 146097;
          yoe = (doe - doe div 1460 + doe div 36524 - doe div 146096) div 365;
          y = yoe + era * 400;
          doy = doe - (365 * yoe + yoe div 4 - yoe div 100);
          mp = (5 * doy + 2) div 153;
          d = doy - (153 * mp + 2) div 5 + 1;
          m = (if mp < 10 then mp + 3 else mp - 9)
      in (if m \<le> 2 then y + 1 else y, m, d))"

definition digit :: "nat \<Rightarrow> char" where
  "digit n = ''0123456789'' ! (n mod 10)"

text \<open>The last \<open>w\<close> decimal digits of \<open>n\<close>, zero-padded on the left.\<close>

fun pad :: "nat \<Rightarrow> nat \<Rightarrow> string" where
  "pad 0 n = []"
| "pad (Suc w) n = pad w (n div 10) @ [digit n]"

text \<open>
  Years 0 to 9999 print with four digits, the others as a sign and six digits (the
  time values of a \<^verbatim>\<open>Date\<close> stay within the years -271821 to 275760).
\<close>

definition yearString :: "int \<Rightarrow> string" where
  "yearString y =
     (if 0 \<le> y \<and> y \<le> 9999 then pad 4 (nat y)
      else (if y < 0 then ''-'' else ''+'') @ pad 6 (nat \<bar>y\<bar>))"

definition isoDate :: "date \<Rightarrow> string" where
  "isoDate t =
     (case civil_from_days (t div msPerDay) of
        (y, m, d) \<Rightarrow> yearString y @ ''-'' @ pad 2 (nat m) @ ''-'' @ pad 2 (nat d))"

definition isoTime :: "date \<Rightarrow> string" where
  "isoTime t =
     (let ms = nat (t mod msPerDay)
      in pad 2 (ms div 3600000) @ '':'' @ pad 2 (ms div 60000 mod 60) @ '':'' @
         pad 2 (ms div 1000 mod 60) @ ''.'' @ pad 3 (ms mod 1000))"

definition toISOString :: "date \<Rightarrow> string" where
  "toISOString t = isoDate t @ ''T'' @ isoTime t @ ''Z''"

text \<open>\<^verbatim>\<open>s.split('T')[0]\<close>: the part of \<open>s\<close> before the first \<^verbatim>\<open>T\<close>.\<close>

definition split_T_0 :: "string \<Rightarrow> string" where
  "split_T_0 s = takeWhile (\<lambda>c. c \<noteq> CHR ''T'') s"

section \<open>The controller\<close>

subsection \<open>\<^verbatim>\<open>getListingTitle\<close>\<close>

text \<open>
  \<^verbatim>\<open>homestay?.title\<close> is absent when no document was found or the document has no title;
  the \<^verbatim>\<open>catch\<close> turns a rejected lookup into \<^verbatim>\<open>undefined\<close>.
\<close>

definition optionalField :: "string option option outcome \<Rightarrow> string option" where
  "optionalField r =
     (case r of Throws \<Rightarrow> None
      | Returns doc \<Rightarrow> (case doc of None \<Rightarrow> None | Some field \<Rightarrow> field))"

definition getListingTitle :: "env \<Rightarrow> string \<Rightarrow> string \<Rightarrow> string option" where
  "getListingTitle e lt lid =
     (if lt = ''homestay'' then optionalField (HomestayModel_findById e lid)
      else if lt = ''guide'' then optionalField (GuideModel_findById e lid)
      else None)"

subsection \<open>\<^verbatim>\<open>hasDateConflict\<close>\<close>

text \<open>The query document, as a predicate on a stored booking.\<close>

definition conflictQuery ::
  "string \<Rightarrow> date \<Rightarrow> date \<Rightarrow> objectId option \<Rightarrow> Booking \<Rightarrow> bool" where
  "conflictQuery lid ci co excludeBookingId b =
     (listingId b = lid \<and> status b \<noteq> Cancelled \<and>
      (checkIn b < co \<and> checkOut b > ci) \<and>
      (case excludeBookingId of None \<Rightarrow> True | Some x \<Rightarrow> booking_id b \<noteq> x))"

definition BookingModel_findOne ::
  "env \<Rightarrow> store \<Rightarrow> (Booking \<Rightarrow> bool) \<Rightarrow> Booking option outcome" where
  "BookingModel_findOne e s q =
     (if dbAvailable e then Returns (find q (bookings s)) else Throws)"

definition hasDateConflict ::
  "env \<Rightarrow> store \<Rightarrow> string \<Rightarrow> date \<Rightarrow> date \<Rightarrow> objectId option \<Rightarrow> Booking option outcome"
  where
  "hasDateConflict e s lid ci co excludeBookingId =
     BookingModel_findOne e s (conflictQuery lid ci co excludeBookingId)"

subsection \<open>\<^verbatim>\<open>getNextBookingNumber\<close>\<close>

text \<open>
  Modelled from the spec: \<^verbatim>\<open>models/counters/Counter.model\<close> is not part of the sources.
  The Sequence Generator returns a value strictly greater than every value it returned
  before, from a durable counter, and fails when the counter is unreachable.
\<close>

definition getNextBookingNumber :: "env \<Rightarrow> store \<Rightarrow> nat outcome \<times> store" where
  "getNextBookingNumber e s =
     (if counterAvailable e
      then (Returns (Suc (counter s)), s\<lparr>counter := Suc (counter s)\<rparr>)
      else (Throws, s))"

subsection \<open>\<^verbatim>\<open>createBooking\<close>\<close>

text \<open>The \<^verbatim>\<open>errors\<close> array after the seven presence checks, in the order of the pushes.\<close>

definition listingTypeInvalid :: "CreateBookingInput \<Rightarrow> bool" where
  "listingTypeInvalid inp =
     (case input_listingType inp of None \<Rightarrow> True
      | Some t \<Rightarrow> t = [] \<or> t \<notin> set [''homestay'', ''guide''])"

definition adultsInvalid :: "CreateBookingInput \<Rightarrow> bool" where
  "adultsInvalid inp =
     (case input_guests inp of None \<Rightarrow> True
      | Some g \<Rightarrow> (case adults g of None \<Rightarrow> True | Some a \<Rightarrow> a = 0 \<or> a < 1))"

definition guestNameMissing :: "CreateBookingInput \<Rightarrow> bool" where
  "guestNameMissing inp =
     (case input_guestDetails inp of None \<Rightarrow> True | Some d \<Rightarrow> \<not> truthy (name d))"

definition guestEmailMissing :: "CreateBookingInput \<Rightarrow> bool" where
  "guestEmailMissing inp =
     (case input_guestDetails inp of None \<Rightarrow> True | Some d \<Rightarrow> \<not> truthy (email d))"

definition fieldErrors :: "CreateBookingInput \<Rightarrow> (string \<times> string) list" where
  "fieldErrors inp =
     (if listingTypeInvalid inp
      then [(''listingType'', ''Listing type must be \"homestay\" or \"guide\"'')] else []) @
     (if \<not> truthy (input_listingId inp)
      then [(''listingId'', ''Listing ID is required'')] else []) @
     (if \<not> truthy (input_checkIn inp)
      then [(''checkIn'', ''Check-in date is required'')] else []) @
     (if \<not> truthy (input_checkOut inp)
      then [(''checkOut'', ''Check-out date is required'')] else []) @
     (if adultsInvalid inp
      then [(''guests.adults'', ''At least 1 adult guest is required'')] else []) @
     (if guestNameMissing inp
      then [(''guestDetails.name'', ''Guest name is required'')] else []) @
     (if guestEmailMissing inp
      then [(''guestDetails.email'', ''Guest email is required'')] else [])"

text \<open>The response of the \<^verbatim>\<open>catch\<close> block for an error that is no \<^verbatim>\<open>ValidationError\<close>.\<close>

definition createFailed :: response_error where
  "createFailed = SendError ''Failed to create booking'' 500 []"

text \<open>
  The local variables that are live after the conflict check: the handler is suspended at
  \<^verbatim>\<open>await hasDateConflict(...)\<close> and resumes with them.
\<close>

record admission =
  adm_input :: CreateBookingInput
  adm_listingType :: string
  adm_listingId :: string
  adm_checkIn :: date
  adm_checkOut :: date

text \<open>
  The first part of \<^verbatim>\<open>createBooking\<close>, up to and including the conflict check. Mongoose
  refuses to cast an Invalid Date in a query, so \<^verbatim>\<open>hasDateConflict\<close> called with one
  rejects and the \<^verbatim>\<open>catch\<close> block answers. The branches for an absent
  \<^verbatim>\<open>listingType\<close> or \<^verbatim>\<open>listingId\<close> are unreachable after the presence checks.
\<close>

definition checkAdmission ::
  "env \<Rightarrow> store \<Rightarrow> CreateBookingInput \<Rightarrow> response_error + admission" where
  "checkAdmission e s inp =
     (let errors = fieldErrors inp in
      if length errors > 0 then Inl (SendError ''Validation failed'' 400 errors)
      else
        let checkInDate = newDate e (input_checkIn inp);
            checkOutDate = newDate e (input_checkOut inp)
        in
        if date_le checkInDate (Some (now e))
        then Inl (SendError ''Validation failed'' 400
                    [(''checkIn'', ''Check-in date must be in the future'')])
        else if date_le checkOutDate checkInDate
        then Inl (SendError ''Validation failed'' 400
                    [(''checkOut'', ''Check-out date must be after check-in date'')])
        else
          (case (input_listingType inp, input_listingId inp, checkInDate, checkOutDate) of
             (Some lt, Some lid, Some ci, Some co) \<Rightarrow>
               (case hasDateConflict e s lid ci co None of
                  Throws \<Rightarrow> Inl createFailed
                | Returns (Some conflicting) \<Rightarrow>
                    Inl (ConflictResponse
                      \<lparr>requestedCheckIn = input_checkIn inp,
                       requestedCheckOut = input_checkOut inp,
                       conflictingBooking =
                         \<lparr>conflict_id = booking_id conflicting,
                          conflict_checkIn = split_T_0 (toISOString (checkIn conflicting)),
                          conflict_checkOut = split_T_0 (toISOString (checkOut conflicting))\<rparr>\<rparr>)
                | Returns None \<Rightarrow>
                    Inr \<lparr>adm_input = inp, adm_listingType = lt, adm_listingId = lid,
                         adm_checkIn = ci, adm_checkOut = co\<rparr>)
           | _ \<Rightarrow> Inl createFailed))"

text \<open>
  The second part: title and booking number (\<^verbatim>\<open>Promise.all\<close>), the new document, and
  \<^verbatim>\<open>save()\<close>. A booking number that was allocated stays consumed when the save fails.
\<close>

definition newBooking :: "store \<Rightarrow> admission \<Rightarrow> string option \<Rightarrow> nat \<Rightarrow> Booking" where
  "newBooking s a title n =
     \<lparr>booking_id = nextId s,
      bookingNumber = n,
      listingType = adm_listingType a,
      listingId = adm_listingId a,
      listingTitle = title,
      checkIn = adm_checkIn a,
      checkOut = adm_checkOut a,
      guests = input_guests (adm_input a),
      guestDetails = input_guestDetails (adm_input a),
      specialRequests = input_specialRequests (adm_input a),
      pricing = input_pricing (adm_input a),
      status = Pending,
      paymentStatus = ''pending'',
      cancellationReason = None,
      cancelledAt = None\<rparr>"

definition persistBooking ::
  "env \<Rightarrow> store \<Rightarrow> admission \<Rightarrow> (response_error + Booking) \<times> store" where
  "persistBooking e s a =
     (let title = getListingTitle e (adm_listingType a) (adm_listingId a) in
      case getNextBookingNumber e s of
        (Throws, s1) \<Rightarrow> (Inl createFailed, s1)
      | (Returns n, s1) \<Rightarrow>
          (let b = newBooking s1 a title n in
           case saveOutcome e of
             Saved \<Rightarrow> (Inr b, s1\<lparr>bookings := bookings s1 @ [b], nextId := Suc (nextId s1)\<rparr>)
           | SchemaInvalid errs \<Rightarrow> (Inl (SendError ''Validation failed'' 400 errs), s1)
           | SaveFailed \<Rightarrow> (Inl createFailed, s1)))"

definition createBooking ::
  "env \<Rightarrow> store \<Rightarrow> CreateBookingInput \<Rightarrow> (response_error + Booking) \<times> store" where
  "createBooking e s inp =
     (case checkAdmission e s inp of
        Inl err \<Rightarrow> (Inl err, s)
      | Inr a \<Rightarrow> persistBooking e s a)"

subsection \<open>\<^verbatim>\<open>cancelBooking\<close>\<close>

definition cancelFailed :: response_error where
  "cancelFailed = SendError ''Failed to cancel booking'' 500 []"

text \<open>\<^verbatim>\<open>booking.save()\<close> on a loaded document replaces the stored document with its id.\<close>

fun saveDocument :: "Booking \<Rightarrow> Booking list \<Rightarrow> Booking list" where
  "saveDocument d [] = []"
| "saveDocument d (b # bs) =
     (if booking_id b = booking_id d then d # bs else b # saveDocument d bs)"

definition cancelBooking ::
  "env \<Rightarrow> store \<Rightarrow> objectId \<Rightarrow> CancelBookingInput \<Rightarrow> (response_error + CancelResult) \<times> store"
  where
  "cancelBooking e s i inp =
     (if \<not> dbAvailable e then (Inl cancelFailed, s)
      else
        case find (\<lambda>b. booking_id b = i) (bookings s) of
          None \<Rightarrow> (Inl (SendError ''Booking not found'' 404 []), s)
        | Some booking \<Rightarrow>
            if status booking = Cancelled
            then (Inl (SendError ''This booking is already cancelled'' 400 []), s)
            else if status booking = Completed
            then (Inl (SendError ''Cannot cancel a completed booking'' 400 []), s)
            else
              (let booking' = booking\<lparr>status := Cancelled,
                                      cancellationReason := reason inp,
                                      cancelledAt := Some (now e)\<rparr>
               in case saveOutcome e of
                    Saved \<Rightarrow>
                      (Inr \<lparr>result_id = booking_id booking',
                            result_status = status booking',
                            result_cancellationReason = cancellationReason booking',
                            result_cancelledAt = cancelledAt booking',
                            refundAmount = total (pricing booking'),
                            refundStatus = ''pending''\<rparr>,
                       s\<lparr>bookings := saveDocument booking' (bookings s)\<rparr>)
                  | _ \<Rightarrow> (Inl cancelFailed, s)))"

section \<open>Properties of the store\<close>

text \<open>
  The stays of two bookings are disjoint when the half-open intervals from check-in to
  check-out share no instant. The safety invariant: any two different documents of the
  collection that are on the same listing and both not cancelled have disjoint stays.
\<close>

definition disjointStays :: "Booking \<Rightarrow> Booking \<Rightarrow> bool" where
  "disjointStays a b \<longleftrightarrow> {checkIn a..<checkOut a} \<inter> {checkIn b..<checkOut b} = {}"

definition noOverlap :: "Booking list \<Rightarrow> bool" where
  "noOverlap bs \<longleftrightarrow>
     (\<forall>i<length bs. \<forall>j<length bs.
        i \<noteq> j \<and> listingId (bs ! i) = listingId (bs ! j) \<and>
        status (bs ! i) \<noteq> Cancelled \<and> status (bs ! j) \<noteq> Cancelled
        \<longrightarrow> disjointStays (bs ! i) (bs ! j))"

subsection \<open>Sequences of requests\<close>

text \<open>
  A request is handled in the environment that it meets; a sequence of requests is handled
  one after the other, each on the store that the one before left.
\<close>

datatype request =
    CreateBooking env CreateBookingInput
  | CancelBooking env objectId CancelBookingInput

fun handle :: "store \<Rightarrow> request \<Rightarrow> store" where
  "handle s (CreateBooking e inp) = snd (createBooking e s inp)"
| "handle s (CancelBooking e i inp) = snd (cancelBooking e s i inp)"

definition handleAll :: "store \<Rightarrow> request list \<Rightarrow> store" where
  "handleAll s rs = foldl handle s rs"

subsection \<open>Interleaved creation requests\<close>

text \<open>
  Several \<^verbatim>\<open>createBooking\<close> calls in flight at once. A handler gives up control at an
  \<^verbatim>\<open>await\<close>: between its conflict check and its insert any other handler may run. A
  task is a request that has not started, one that passed the conflict check and waits to
  persist, or one that has answered.
\<close>

datatype task =
    Requested env CreateBookingInput
  | Admitted env admission
  | Finished "response_error + Booking"

inductive step :: "store \<times> task list \<Rightarrow> store \<times> task list \<Rightarrow> bool" where
  rejected:
    "i < length ts \<Longrightarrow> ts ! i = Requested e inp \<Longrightarrow> checkAdmission e s inp = Inl err \<Longrightarrow>
     step (s, ts) (s, ts[i := Finished (Inl err)])"
| admitted:
    "i < length ts \<Longrightarrow> ts ! i = Requested e inp \<Longrightarrow> checkAdmission e s inp = Inr a \<Longrightarrow>
     step (s, ts) (s, ts[i := Admitted e a])"
| persisted:
    "i < length ts \<Longrightarrow> ts ! i = Admitted e a \<Longrightarrow> persistBooking e s a = (r, s') \<Longrightarrow>
     step (s, ts) (s', ts[i := Finished r])"

section \<open>Example data\<close>

text \<open>
  A clock at 2025-01-01, a parser that knows the date strings of the examples, a homestay
  \<^verbatim>\<open>h1\<close>, and a guide store whose lookups fail.
\<close>

definition exampleParse :: "string \<Rightarrow> date option" where
  "exampleParse = map_of
     [(''2025-06-10'', 1749513600000),
      (''2025-06-12'', 1749686400000),
      (''2025-06-12T14:30:00.000Z'', 1749738600000),
      (''2025-06-15'', 1749945600000),
      (''2025-06-18'', 1750204800000),
      (''2025-06-20'', 1750377600000),
      (''2024-06-10'', 1717977600000),
      (''2024-06-01'', 1717200000000)]"

definition exampleEnv :: env where
  "exampleEnv =
     \<lparr>now = 1735689600000,
      parseDate = exampleParse,
      HomestayModel_findById =
        (\<lambda>i. if i = ''h1'' then Returns (Some (Some ''River View'')) else Returns None),
      GuideModel_findById = (\<lambda>i. Throws),
      dbAvailable = True,
      counterAvailable = True,
      saveOutcome = Saved\<rparr>"

definition exampleInput :: "string \<Rightarrow> string \<Rightarrow> string \<Rightarrow> string \<Rightarrow> CreateBookingInput" where
  "exampleInput lt lid ci co =
     \<lparr>input_listingType = Some lt,
      input_listingId = Some lid,
      input_checkIn = Some ci,
      input_checkOut = Some co,
      input_guests = Some \<lparr>adults = Some 2\<rparr>,
      input_guestDetails = Some \<lparr>name = Some ''Asha'', email = Some ''asha@example.org''\<rparr>,
      input_specialRequests = None,
      input_pricing = \<lparr>total = 5000\<rparr>\<rparr>"

definition emptyStore :: store where
  "emptyStore = \<lparr>bookings = [], counter = 0, nextId = 0\<rparr>"

definition exampleBooking ::
  "objectId \<Rightarrow> string \<Rightarrow> string option \<Rightarrow> date \<Rightarrow> date \<Rightarrow> status \<Rightarrow> Booking" where
  "exampleBooking i lt title ci co st =
     \<lparr>booking_id = i,
      bookingNumber = Suc i,
      listingType = lt,
      listingId = ''h1'',
      listingTitle = title,
      checkIn = ci,
      checkOut = co,
      guests = Some \<lparr>adults = Some 2\<rparr>,
      guestDetails = Some \<lparr>name = Some ''Asha'', email = Some ''asha@example.org''\<rparr>,
      specialRequests = None,
      pricing = \<lparr>total = 5000\<rparr>,
      status = st,
      paymentStatus = ''pending'',
      cancellationReason = None,
      cancelledAt = None\<rparr>"

text \<open>Booking A of the examples: homestay \<^verbatim>\<open>h1\<close> from 2025-06-10 to 2025-06-15.\<close>

definition bookingA :: "status \<Rightarrow> Booking" where
  "bookingA st = exampleBooking 0 ''homestay'' (Some ''River View'') 1749513600000 1749945600000 st"

definition storeA :: "status \<Rightarrow> store" where
  "storeA st = \<lparr>bookings = [bookingA st], counter = 1, nextId = 1\<rparr>"

text \<open>
  The requests of the example run: book A, try an overlapping stay (refused), cancel A,
  retry the same stay (accepted), and book a stay that begins on its check-out day.
\<close>

definition exampleRequests :: "request list" where
  "exampleRequests =
     [CreateBooking exampleEnv (exampleInput ''homestay'' ''h1'' ''2025-06-10'' ''2025-06-15''),
      CreateBooking exampleEnv (exampleInput ''homestay'' ''h1'' ''2025-06-12'' ''2025-06-18''),
      CancelBooking exampleEnv 0 \<lparr>reason = Some ''change of plans''\<rparr>,
      CreateBooking exampleEnv (exampleInput ''homestay'' ''h1'' ''2025-06-12'' ''2025-06-18''),
      CreateBooking exampleEnv (exampleInput ''homestay'' ''h1'' ''2025-06-18'' ''2025-06-20'')]"

text \<open>
  Two requests for overlapping stays on homestay \<^verbatim>\<open>h1\<close>, what each holds after its
  conflict check on the empty store, and the bookings and stores that result when both
  persist.
\<close>

definition raceRequest1 :: CreateBookingInput where
  "raceRequest1 = exampleInput ''homestay'' ''h1'' ''2025-06-10'' ''2025-06-15''"

definition raceRequest2 :: CreateBookingInput where
  "raceRequest2 = exampleInput ''homestay'' ''h1'' ''2025-06-12'' ''2025-06-18''"

definition raceBooking1 :: Booking where
  "raceBooking1 =
     exampleBooking 0 ''homestay'' (Some ''River View'') 1749513600000 1749945600000 Pending"

definition raceBooking2 :: Booking where
  "raceBooking2 =
     exampleBooking 1 ''homestay'' (Some ''River View'') 1749686400000 1750204800000 Pending"

definition raceStore :: store where
  "raceStore = \<lparr>bookings = [raceBooking1, raceBooking2], counter = 2, nextId = 2\<rparr>"

definition raceAdmission1 :: admission where
  "raceAdmission1 =
     \<lparr>adm_input = raceRequest1, adm_listingType = ''homestay'', adm_listingId = ''h1'',
      adm_checkIn = 1749513600000, adm_checkOut = 1749945600000\<rparr>"

definition raceAdmission2 :: admission where
  "raceAdmission2 =
     \<lparr>adm_input = raceRequest2, adm_listingType = ''homestay'', adm_listingId = ''h1'',
      adm_checkIn = 1749686400000, adm_checkOut = 1750204800000\<rparr>"

definition raceStore1 :: store where
  "raceStore1 = \<lparr>bookings = [raceBooking1], counter = 1, nextId = 1\<rparr>"

text \<open>
  The same two requests when the second one persists first: the bookings and stores that
  result.
\<close>

definition lateBooking2 :: Booking where
  "lateBooking2 =
     exampleBooking 0 ''homestay'' (Some ''River View'') 1749686400000 1750204800000 Pending"

definition lateBooking1 :: Booking where
  "lateBooking1 =
     exampleBooking 1 ''homestay'' (Some ''River View'') 1749513600000 1749945600000 Pending"

definition lateStore1 :: store where
  "lateStore1 = \<lparr>bookings = [lateBooking2], counter = 1, nextId = 1\<rparr>"

definition lateStore :: store where
  "lateStore = \<lparr>bookings = [lateBooking2, lateBooking1], counter = 2, nextId = 2\<rparr>"

section \<open>Verified properties\<close>

lemmas example_defs =
  exampleEnv_def storeA_def bookingA_def exampleBooking_def emptyStore_def

subsection \<open>The conflict detector\<close>

text \<open>
  Claim C2. When the database answers, \<^verbatim>\<open>hasDateConflict(listingId, c, d, exclude)\<close>
  returns a booking exactly when some stored booking on the same listing, not cancelled and
  different from the excluded one (when one is supplied), has a range \<open>[a, b)\<close> with
  \<open>a < d\<close> and \<open>b > c\<close>; the booking returned is such a booking, and a booking
  whose range only touches the requested one (\<open>b = c\<close> or \<open>a = d\<close>) is never the
  one returned.
\<close>

theorem hasDateConflict_overlap:
  assumes "dbAvailable e"
  shows "\<exists>r. hasDateConflict e s lid c d ex = Returns r \<and>
           (r \<noteq> None \<longleftrightarrow>
              (\<exists>b\<in>set (bookings s).
                 listingId b = lid \<and> status b \<noteq> Cancelled \<and>
                 (\<forall>x. ex = Some x \<longrightarrow> booking_id b \<noteq> x) \<and>
                 checkIn b < d \<and> checkOut b > c)) \<and>
           (\<forall>k. r = Some k \<longrightarrow>
              k \<in> set (bookings s) \<and> listingId k = lid \<and> status k \<noteq> Cancelled \<and>
              (\<forall>x. ex = Some x \<longrightarrow> booking_id k \<noteq> x) \<and>
              checkIn k < d \<and> checkOut k > c) \<and>
           (\<forall>b\<in>set (bookings s). checkOut b = c \<or> checkIn b = d \<longrightarrow> r \<noteq> Some b)"
proof -
  let ?q = "conflictQuery lid c d ex"
  let ?r = "find ?q (bookings s)"
  have q: "?q b \<longleftrightarrow> listingId b = lid \<and> status b \<noteq> Cancelled \<and>
                 (\<forall>x. ex = Some x \<longrightarrow> booking_id b \<noteq> x) \<and>
                 checkIn b < d \<and> checkOut b > c" for b
    by (auto simp: conflictQuery_def split: option.splits)
  have ret: "hasDateConflict e s lid c d ex = Returns ?r"
    using assms by (simp add: hasDateConflict_def BookingModel_findOne_def)
  have some: "?q k \<and> k \<in> set (bookings s)" if "?r = Some k" for k
    using that by (auto simp: find_Some_iff)
  have ex: "?r \<noteq> None \<longleftrightarrow> (\<exists>b\<in>set (bookings s). ?q b)"
    by (auto simp: find_None_iff)
  have touch: "?r \<noteq> Some b" if "checkOut b = c \<or> checkIn b = d" for b
  proof
    assume "?r = Some b"
    then have "?q b" using some by blast
    with that show False by (auto simp: q)
  qed
  show ?thesis
    unfolding ret using some ex touch by (simp add: q) blast
qed

theorem hasDateConflict_overlap_witness:
  "dbAvailable exampleEnv \<and>
   hasDateConflict exampleEnv (storeA Pending) ''h1'' 1749686400000 1750204800000 None
     = Returns (Some (bookingA Pending)) \<and>
   hasDateConflict exampleEnv (storeA Pending) ''h1'' 1749945600000 1750377600000 None
     = Returns None"
proof -
  have h: "dbAvailable exampleEnv" by (simp add: exampleEnv_def)
  have mem: "set (bookings (storeA Pending)) = {bookingA Pending}"
    by (simp add: storeA_def)
  have a: "checkIn (bookingA Pending) = 1749513600000"
    "checkOut (bookingA Pending) = 1749945600000"
    "listingId (bookingA Pending) = ''h1''" "status (bookingA Pending) = Pending"
    by (simp_all add: bookingA_def exampleBooking_def)
  from hasDateConflict_overlap[OF h, of "storeA Pending" "''h1''" 1749686400000 1750204800000 None]
  have 1: "hasDateConflict exampleEnv (storeA Pending) ''h1'' 1749686400000 1750204800000 None
     = Returns (Some (bookingA Pending))"
    unfolding mem by (auto simp: a)
  from hasDateConflict_overlap[OF h, of "storeA Pending" "''h1''" 1749945600000 1750377600000 None]
  have 2: "hasDateConflict exampleEnv (storeA Pending) ''h1'' 1749945600000 1750377600000 None
     = Returns None"
    unfolding mem by (auto simp: a)
  from h 1 2 show ?thesis by simp
qed

subsection \<open>Cancellation\<close>

lemma saveDocument_update:
  assumes "k < length bs" "booking_id (bs ! k) = booking_id d"
    and "\<forall>j<k. booking_id (bs ! j) \<noteq> booking_id d"
  shows "saveDocument d bs = bs[k := d]"
  using assms
proof (induction bs arbitrary: k)
  case Nil
  then show ?case by simp
next
  case (Cons b bs)
  show ?case
  proof (cases k)
    case 0
    with Cons.prems show ?thesis by simp
  next
    case (Suc k')
    from Cons.prems Suc have "booking_id b \<noteq> booking_id d" by auto
    moreover have "saveDocument d bs = bs[k' := d]"
      using Cons.prems Suc by (intro Cons.IH) auto
    ultimately show ?thesis using Suc by simp
  qed
qed

lemma find_first_index:
  assumes "find P bs = Some b"
  shows "\<exists>k<length bs. bs ! k = b \<and> P b \<and> (\<forall>j<k. \<not> P (bs ! j))"
  using assms by (auto simp: find_Some_iff)

lemma cancelBooking_Inr:
  assumes "cancelBooking e s i inp = (Inr r, s')"
  shows "\<exists>b. dbAvailable e \<and> saveOutcome e = Saved \<and>
           find (\<lambda>b. booking_id b = i) (bookings s) = Some b \<and>
           status b \<noteq> Cancelled \<and> status b \<noteq> Completed \<and>
           r = \<lparr>result_id = i, result_status = Cancelled,
                result_cancellationReason = reason inp,
                result_cancelledAt = Some (now e),
                refundAmount = total (pricing b), refundStatus = ''pending''\<rparr> \<and>
           s' = s\<lparr>bookings := saveDocument
                  (b\<lparr>status := Cancelled, cancellationReason := reason inp,
                     cancelledAt := Some (now e)\<rparr>) (bookings s)\<rparr>"
  using assms
  by (auto simp: cancelBooking_def Let_def find_Some_iff
      split: if_splits option.splits save_outcome.splits)

lemma cancelBooking_Inl:
  assumes "cancelBooking e s i inp = (Inl err, s')"
  shows "s' = s"
  using assms
  by (auto simp: cancelBooking_def Let_def
      split: if_splits option.splits save_outcome.splits)

text \<open>
  Claim C5. \<^verbatim>\<open>cancelBooking\<close> succeeds only for a booking whose status is pending or
  confirmed. For a cancelled booking it answers 400 with "This booking is already
  cancelled", for a completed one 400 with "Cannot cancel a completed booking"; the two
  messages differ. Whenever it answers with an error, the store is as it was.
\<close>

theorem cancelBooking_state_guard:
  "(\<forall>r s'. cancelBooking e s i inp = (Inr r, s') \<longrightarrow>
      (\<exists>b. find (\<lambda>b. booking_id b = i) (bookings s) = Some b \<and>
           (status b = Pending \<or> status b = Confirmed))) \<and>
   (\<forall>b. dbAvailable e \<and> find (\<lambda>b. booking_id b = i) (bookings s) = Some b \<and>
        status b = Cancelled \<longrightarrow>
        cancelBooking e s i inp =
          (Inl (SendError ''This booking is already cancelled'' 400 []), s)) \<and>
   (\<forall>b. dbAvailable e \<and> find (\<lambda>b. booking_id b = i) (bookings s) = Some b \<and>
        status b = Completed \<longrightarrow>
        cancelBooking e s i inp =
          (Inl (SendError ''Cannot cancel a completed booking'' 400 []), s)) \<and>
   ''This booking is already cancelled'' \<noteq> ''Cannot cancel a completed booking'' \<and>
   (\<forall>err s'. cancelBooking e s i inp = (Inl err, s') \<longrightarrow> s' = s)"
proof (intro conjI allI impI)
  fix r s' assume "cancelBooking e s i inp = (Inr r, s')"
  from cancelBooking_Inr[OF this] obtain b where
    "find (\<lambda>b. booking_id b = i) (bookings s) = Some b"
    "status b \<noteq> Cancelled" "status b \<noteq> Completed" by blast
  then show "\<exists>b. find (\<lambda>b. booking_id b = i) (bookings s) = Some b \<and>
           (status b = Pending \<or> status b = Confirmed)"
    by (cases "status b") auto
next
  fix b assume "dbAvailable e \<and> find (\<lambda>b. booking_id b = i) (bookings s) = Some b \<and>
        status b = Cancelled"
  then show "cancelBooking e s i inp =
          (Inl (SendError ''This booking is already cancelled'' 400 []), s)"
    by (simp add: cancelBooking_def)
next
  fix b assume "dbAvailable e \<and> find (\<lambda>b. booking_id b = i) (bookings s) = Some b \<and>
        status b = Completed"
  then show "cancelBooking e s i inp =
          (Inl (SendError ''Cannot cancel a completed booking'' 400 []), s)"
    by (simp add: cancelBooking_def)
next
  show "''This booking is already cancelled'' \<noteq> ''Cannot cancel a completed booking''"
    by simp
next
  fix err s' assume "cancelBooking e s i inp = (Inl err, s')"
  then show "s' = s" by (rule cancelBooking_Inl)
qed

theorem cancelBooking_state_guard_witness:
  "cancelBooking exampleEnv (storeA Cancelled) 0 \<lparr>reason = Some ''change of plans''\<rparr> =
     (Inl (SendError ''This booking is already cancelled'' 400 []), storeA Cancelled) \<and>
   cancelBooking exampleEnv (storeA Completed) 0 \<lparr>reason = Some ''change of plans''\<rparr> =
     (Inl (SendError ''Cannot cancel a completed booking'' 400 []), storeA Completed)"
proof -
  have h: "dbAvailable exampleEnv \<and>
      find (\<lambda>b. booking_id b = 0) (bookings (storeA st)) = Some (bookingA st) \<and>
      status (bookingA st) = st" for st
    by (simp add: example_defs)
  from cancelBooking_state_guard
         [of exampleEnv "storeA Cancelled" 0 "\<lparr>reason = Some ''change of plans''\<rparr>",
          THEN conjunct2, THEN conjunct1, rule_format, of "bookingA Cancelled"]
       h[of Cancelled]
  have 1: "cancelBooking exampleEnv (storeA Cancelled) 0 \<lparr>reason = Some ''change of plans''\<rparr> =
     (Inl (SendError ''This booking is already cancelled'' 400 []), storeA Cancelled)"
    by simp
  from cancelBooking_state_guard
         [of exampleEnv "storeA Completed" 0 "\<lparr>reason = Some ''change of plans''\<rparr>",
          THEN conjunct2, THEN conjunct2, THEN conjunct1, rule_format, of "bookingA Completed"]
       h[of Completed]
  have 2: "cancelBooking exampleEnv (storeA Completed) 0 \<lparr>reason = Some ''change of plans''\<rparr> =
     (Inl (SendError ''Cannot cancel a completed booking'' 400 []), storeA Completed)"
    by simp
  from 1 2 show ?thesis by simp
qed

lemma find_saveDocument:
  assumes "find (\<lambda>b. booking_id b = i) bs = Some b" "booking_id d = i"
  shows "find (\<lambda>b. booking_id b = i) (saveDocument d bs) = Some d"
  using assms by (induction bs) (auto split: if_splits)

text \<open>
  Claim C6. For a booking that is pending or confirmed (the database answering and the save
  accepted), \<^verbatim>\<open>cancelBooking\<close> succeeds: the stored booking becomes cancelled with the
  supplied reason and \<^verbatim>\<open>cancelledAt\<close> the current time, and the result reports a
  \<^verbatim>\<open>refundAmount\<close> equal to the stored \<^verbatim>\<open>pricing.total\<close> with \<^verbatim>\<open>refundStatus\<close>
  pending. The refund is only reported: pricing and payment status of the stored booking
  are as before.
\<close>

theorem cancelBooking_effect:
  assumes "dbAvailable e" and "saveOutcome e = Saved"
    and "find (\<lambda>b. booking_id b = i) (bookings s) = Some b"
    and "status b = Pending \<or> status b = Confirmed"
  shows "\<exists>r s' b'. cancelBooking e s i inp = (Inr r, s') \<and>
           find (\<lambda>b. booking_id b = i) (bookings s') = Some b' \<and>
           status b' = Cancelled \<and>
           cancellationReason b' = reason inp \<and>
           cancelledAt b' = Some (now e) \<and>
           result_id r = i \<and>
           result_status r = Cancelled \<and>
           result_cancellationReason r = reason inp \<and>
           result_cancelledAt r = Some (now e) \<and>
           refundAmount r = total (pricing b) \<and>
           refundStatus r = ''pending'' \<and>
           pricing b' = pricing b \<and>
           paymentStatus b' = paymentStatus b"
proof -
  let ?b' = "b\<lparr>status := Cancelled, cancellationReason := reason inp,
                cancelledAt := Some (now e)\<rparr>"
  have id: "booking_id b = i"
    using assms(3) by (auto simp: find_Some_iff)
  have run: "cancelBooking e s i inp =
      (Inr \<lparr>result_id = i, result_status = Cancelled,
            result_cancellationReason = reason inp,
            result_cancelledAt = Some (now e),
            refundAmount = total (pricing b), refundStatus = ''pending''\<rparr>,
       s\<lparr>bookings := saveDocument ?b' (bookings s)\<rparr>)"
    using assms id by (auto simp: cancelBooking_def Let_def)
  have "find (\<lambda>b. booking_id b = i) (saveDocument ?b' (bookings s)) = Some ?b'"
    using assms(3) id by (intro find_saveDocument) auto
  then show ?thesis
    unfolding run by simp
qed

theorem cancelBooking_effect_witness:
  "\<exists>r s'. cancelBooking exampleEnv (storeA Confirmed) 0 \<lparr>reason = Some ''change of plans''\<rparr>
             = (Inr r, s') \<and>
          refundAmount r = 5000 \<and> refundStatus r = ''pending'' \<and>
          result_status r = Cancelled"
proof -
  have h: "dbAvailable exampleEnv" "saveOutcome exampleEnv = Saved"
    "find (\<lambda>b. booking_id b = 0) (bookings (storeA Confirmed)) = Some (bookingA Confirmed)"
    "status (bookingA Confirmed) = Pending \<or> status (bookingA Confirmed) = Confirmed"
    by (simp_all add: example_defs)
  have t: "total (pricing (bookingA Confirmed)) = 5000"
    by (simp add: example_defs)
  from cancelBooking_effect[OF h, of "\<lparr>reason = Some ''change of plans''\<rparr>"] t
  show ?thesis by auto
qed

text \<open>
  Claim C9. A successful \<^verbatim>\<open>cancelBooking\<close> replaces one stored booking, the one with
  the requested id, by itself with \<^verbatim>\<open>status\<close>, \<^verbatim>\<open>cancellationReason\<close> and
  \<^verbatim>\<open>cancelledAt\<close> updated. Every other field of that booking (booking number, listing,
  title, dates, guests, guest details, special requests, pricing and payment status) and
  every other booking, the counter and the id supply are unchanged.
\<close>

theorem cancelBooking_frame:
  assumes "cancelBooking e s i inp = (Inr r, s')"
  shows "\<exists>k<length (bookings s).
           booking_id (bookings s ! k) = i \<and>
           bookings s' = (bookings s)
             [k := (bookings s ! k)\<lparr>status := Cancelled,
                                     cancellationReason := reason inp,
                                     cancelledAt := Some (now e)\<rparr>] \<and>
           booking_id (bookings s' ! k) = booking_id (bookings s ! k) \<and>
           bookingNumber (bookings s' ! k) = bookingNumber (bookings s ! k) \<and>
           listingType (bookings s' ! k) = listingType (bookings s ! k) \<and>
           listingId (bookings s' ! k) = listingId (bookings s ! k) \<and>
           listingTitle (bookings s' ! k) = listingTitle (bookings s ! k) \<and>
           checkIn (bookings s' ! k) = checkIn (bookings s ! k) \<and>
           checkOut (bookings s' ! k) = checkOut (bookings s ! k) \<and>
           guests (bookings s' ! k) = guests (bookings s ! k) \<and>
           guestDetails (bookings s' ! k) = guestDetails (bookings s ! k) \<and>
           specialRequests (bookings s' ! k) = specialRequests (bookings s ! k) \<and>
           pricing (bookings s' ! k) = pricing (bookings s ! k) \<and>
           paymentStatus (bookings s' ! k) = paymentStatus (bookings s ! k) \<and>
           (\<forall>j<length (bookings s). j \<noteq> k \<longrightarrow> bookings s' ! j = bookings s ! j) \<and>
           length (bookings s') = length (bookings s) \<and>
           counter s' = counter s \<and> nextId s' = nextId s"
proof -
  from cancelBooking_Inr[OF assms] obtain b where
    f: "find (\<lambda>b. booking_id b = i) (bookings s) = Some b" and
    s': "s' = s\<lparr>bookings := saveDocument
                  (b\<lparr>status := Cancelled, cancellationReason := reason inp,
                     cancelledAt := Some (now e)\<rparr>) (bookings s)\<rparr>"
    by blast
  let ?b' = "b\<lparr>status := Cancelled, cancellationReason := reason inp,
                cancelledAt := Some (now e)\<rparr>"
  from find_first_index[OF f] obtain k where
    k: "k < length (bookings s)" "bookings s ! k = b" "booking_id b = i"
       "\<forall>j<k. booking_id (bookings s ! j) \<noteq> i" by blast
  have upd: "saveDocument ?b' (bookings s) = (bookings s)[k := ?b']"
    using k by (intro saveDocument_update) auto
  show ?thesis
    using k by (intro exI[of _ k]) (simp add: s' upd)
qed

theorem cancelBooking_frame_witness:
  "bookings (snd (cancelBooking exampleEnv (storeA Pending) 0 \<lparr>reason = None\<rparr>)) =
     [(bookingA Pending)\<lparr>status := Cancelled, cancellationReason := None,
                         cancelledAt := Some 1735689600000\<rparr>] \<and>
   paymentStatus (hd (bookings (snd (cancelBooking exampleEnv (storeA Pending) 0
     \<lparr>reason = None\<rparr>)))) = ''pending''"
proof -
  obtain r s' where
    run: "cancelBooking exampleEnv (storeA Pending) 0 \<lparr>reason = None\<rparr> = (Inr r, s')"
    by (simp add: cancelBooking_def example_defs)
  have b: "bookings (storeA Pending) = [bookingA Pending]" "now exampleEnv = 1735689600000"
    "paymentStatus (bookingA Pending) = ''pending''"
    by (simp_all add: example_defs)
  from cancelBooking_frame[OF run] b(3) show ?thesis
    unfolding run b(1,2) by auto
qed

subsection \<open>Validation in \<^verbatim>\<open>createBooking\<close>\<close>

lemma createBooking_fieldErrors:
  assumes "fieldErrors inp \<noteq> []"
  shows "createBooking e s inp = (Inl (SendError ''Validation failed'' 400 (fieldErrors inp)), s)"
  using assms by (simp add: createBooking_def checkAdmission_def Let_def)

lemma createBooking_checkIn_past:
  assumes "fieldErrors inp = []" "newDate e (input_checkIn inp) = Some ci" "ci \<le> now e"
  shows "createBooking e s inp =
    (Inl (SendError ''Validation failed'' 400
           [(''checkIn'', ''Check-in date must be in the future'')]), s)"
  using assms by (simp add: createBooking_def checkAdmission_def Let_def date_le_def)

lemma createBooking_checkOut_early:
  assumes "fieldErrors inp = []" "newDate e (input_checkIn inp) = Some ci" "now e < ci"
    "newDate e (input_checkOut inp) = Some co" "co \<le> ci"
  shows "createBooking e s inp =
    (Inl (SendError ''Validation failed'' 400
           [(''checkOut'', ''Check-out date must be after check-in date'')]), s)"
  using assms by (simp add: createBooking_def checkAdmission_def Let_def date_le_def)

lemma listingType_error_iff:
  "(''listingType'', ''Listing type must be \"homestay\" or \"guide\"'') \<in> set (fieldErrors inp)
   \<longleftrightarrow> input_listingType inp \<notin> {Some ''homestay'', Some ''guide''}"
  by (auto simp: fieldErrors_def listingTypeInvalid_def split: option.splits)

lemma listingId_error_iff:
  "(''listingId'', ''Listing ID is required'') \<in> set (fieldErrors inp)
   \<longleftrightarrow> input_listingId inp \<in> {None, Some ''''}"
  by (auto simp: fieldErrors_def truthy_def split: option.splits)

lemma checkIn_error_iff:
  "(''checkIn'', ''Check-in date is required'') \<in> set (fieldErrors inp)
   \<longleftrightarrow> input_checkIn inp \<in> {None, Some ''''}"
  by (auto simp: fieldErrors_def truthy_def split: option.splits)

lemma checkOut_error_iff:
  "(''checkOut'', ''Check-out date is required'') \<in> set (fieldErrors inp)
   \<longleftrightarrow> input_checkOut inp \<in> {None, Some ''''}"
  by (auto simp: fieldErrors_def truthy_def split: option.splits)

lemma adults_error_iff:
  "(''guests.adults'', ''At least 1 adult guest is required'') \<in> set (fieldErrors inp)
   \<longleftrightarrow> \<not> (\<exists>g a. input_guests inp = Some g \<and> adults g = Some a \<and> 1 \<le> a)"
  by (auto simp: fieldErrors_def adultsInvalid_def split: option.splits)

lemma name_error_iff:
  "(''guestDetails.name'', ''Guest name is required'') \<in> set (fieldErrors inp)
   \<longleftrightarrow> \<not> (\<exists>d n. input_guestDetails inp = Some d \<and> name d = Some n \<and> n \<noteq> '''')"
  by (auto simp: fieldErrors_def guestNameMissing_def truthy_def split: option.splits)

lemma email_error_iff:
  "(''guestDetails.email'', ''Guest email is required'') \<in> set (fieldErrors inp)
   \<longleftrightarrow> \<not> (\<exists>d m. input_guestDetails inp = Some d \<and> email d = Some m \<and> m \<noteq> '''')"
  by (auto simp: fieldErrors_def guestEmailMissing_def truthy_def split: option.splits)

lemma fieldErrors_subset:
  "set (fieldErrors inp) \<subseteq>
     {(''listingType'', ''Listing type must be \"homestay\" or \"guide\"''),
      (''listingId'', ''Listing ID is required''),
      (''checkIn'', ''Check-in date is required''),
      (''checkOut'', ''Check-out date is required''),
      (''guests.adults'', ''At least 1 adult guest is required''),
      (''guestDetails.name'', ''Guest name is required''),
      (''guestDetails.email'', ''Guest email is required'')}"
  by (auto simp: fieldErrors_def split: if_splits)

lemma fieldErrors_distinct: "distinct (fieldErrors inp)"
  by (simp add: fieldErrors_def)

lemma fieldErrors_no_date_range:
  "(''checkIn'', ''Check-in date must be in the future'') \<notin> set (fieldErrors inp) \<and>
   (''checkOut'', ''Check-out date must be after check-in date'') \<notin> set (fieldErrors inp)"
  using fieldErrors_subset[of inp] by auto

lemma exampleInput_valid: "fieldErrors (exampleInput ''homestay'' ''h1'' (c # cs) (d # ds)) = []"
  by (simp add: fieldErrors_def exampleInput_def listingTypeInvalid_def truthy_def
      adultsInvalid_def guestNameMissing_def guestEmailMissing_def)

text \<open>
  Claim C4. \<^verbatim>\<open>createBooking\<close> validates in two phases. When some presence check
  fails, the answer is the validation error with the whole \<^verbatim>\<open>errors\<close> list and the
  store is untouched; that list holds the entry of a field exactly when the field's check
  is violated (listing type one of homestay and guide, listing id, check-in and check-out
  present, at least one adult, guest name and email present), it holds nothing else and no
  entry twice. Only when the list is empty are the two date rules evaluated, on the parsed
  dates: a check-in not after the current time is answered with the single check-in
  entry, and otherwise a check-out not after the check-in with the single check-out entry.
\<close>

theorem createBooking_two_phase:
  "(fieldErrors inp \<noteq> [] \<longrightarrow>
      createBooking e s inp =
        (Inl (SendError ''Validation failed'' 400 (fieldErrors inp)), s)) \<and>
   ((''listingType'', ''Listing type must be \"homestay\" or \"guide\"'') \<in> set (fieldErrors inp)
      \<longleftrightarrow> input_listingType inp \<notin> {Some ''homestay'', Some ''guide''}) \<and>
   ((''listingId'', ''Listing ID is required'') \<in> set (fieldErrors inp)
      \<longleftrightarrow> input_listingId inp \<in> {None, Some ''''}) \<and>
   ((''checkIn'', ''Check-in date is required'') \<in> set (fieldErrors inp)
      \<longleftrightarrow> input_checkIn inp \<in> {None, Some ''''}) \<and>
   ((''checkOut'', ''Check-out date is required'') \<in> set (fieldErrors inp)
      \<longleftrightarrow> input_checkOut inp \<in> {None, Some ''''}) \<and>
   ((''guests.adults'', ''At least 1 adult guest is required'') \<in> set (fieldErrors inp)
      \<longleftrightarrow> \<not> (\<exists>g a. input_guests inp = Some g \<and> adults g = Some a \<and> 1 \<le> a)) \<and>
   ((''guestDetails.name'', ''Guest name is required'') \<in> set (fieldErrors inp)
      \<longleftrightarrow> \<not> (\<exists>d n. input_guestDetails inp = Some d \<and> name d = Some n \<and> n \<noteq> '''')) \<and>
   ((''guestDetails.email'', ''Guest email is required'') \<in> set (fieldErrors inp)
      \<longleftrightarrow> \<not> (\<exists>d m. input_guestDetails inp = Some d \<and> email d = Some m \<and> m \<noteq> '''')) \<and>
   set (fieldErrors inp) \<subseteq>
     {(''listingType'', ''Listing type must be \"homestay\" or \"guide\"''),
      (''listingId'', ''Listing ID is required''),
      (''checkIn'', ''Check-in date is required''),
      (''checkOut'', ''Check-out date is required''),
      (''guests.adults'', ''At least 1 adult guest is required''),
      (''guestDetails.name'', ''Guest name is required''),
      (''guestDetails.email'', ''Guest email is required'')} \<and>
   distinct (fieldErrors inp) \<and>
   (''checkIn'', ''Check-in date must be in the future'') \<notin> set (fieldErrors inp) \<and>
   (''checkOut'', ''Check-out date must be after check-in date'') \<notin> set (fieldErrors inp) \<and>
   (fieldErrors inp = [] \<and> newDate e (input_checkIn inp) = Some ci \<and> ci \<le> now e \<longrightarrow>
      createBooking e s inp =
        (Inl (SendError ''Validation failed'' 400
               [(''checkIn'', ''Check-in date must be in the future'')]), s)) \<and>
   (fieldErrors inp = [] \<and> newDate e (input_checkIn inp) = Some ci \<and> now e < ci \<and>
    newDate e (input_checkOut inp) = Some co \<and> co \<le> ci \<longrightarrow>
      createBooking e s inp =
        (Inl (SendError ''Validation failed'' 400
               [(''checkOut'', ''Check-out date must be after check-in date'')]), s))"
  using createBooking_fieldErrors[of inp e s]
    listingType_error_iff[of inp] listingId_error_iff[of inp] checkIn_error_iff[of inp]
    checkOut_error_iff[of inp] adults_error_iff[of inp] name_error_iff[of inp]
    email_error_iff[of inp] fieldErrors_subset[of inp] fieldErrors_distinct[of inp]
    fieldErrors_no_date_range[of inp]
    createBooking_checkIn_past[of inp e ci s]
    createBooking_checkOut_early[of inp e ci co s]
  by (intro conjI impI) (elim conjE | assumption | blast)+

theorem createBooking_two_phase_witness:
  "createBooking exampleEnv emptyStore
     ((exampleInput ''homestay'' ''h1'' ''2025-06-10'' ''2025-06-15'')
        \<lparr>input_guests := Some \<lparr>adults = Some 0\<rparr>,
         input_guestDetails := Some \<lparr>name = Some ''Asha'', email = None\<rparr>\<rparr>) =
     (Inl (SendError ''Validation failed'' 400
        [(''guests.adults'', ''At least 1 adult guest is required''),
         (''guestDetails.email'', ''Guest email is required'')]), emptyStore) \<and>
   createBooking exampleEnv emptyStore (exampleInput ''homestay'' ''h1'' ''2025-06-15'' ''2025-06-10'') =
     (Inl (SendError ''Validation failed'' 400
        [(''checkOut'', ''Check-out date must be after check-in date'')]), emptyStore)"
proof -
  let ?inp = "(exampleInput ''homestay'' ''h1'' ''2025-06-10'' ''2025-06-15'')
        \<lparr>input_guests := Some \<lparr>adults = Some 0\<rparr>,
         input_guestDetails := Some \<lparr>name = Some ''Asha'', email = None\<rparr>\<rparr>"
  let ?inp2 = "exampleInput ''homestay'' ''h1'' ''2025-06-15'' ''2025-06-10''"
  have fe: "fieldErrors ?inp =
        [(''guests.adults'', ''At least 1 adult guest is required''),
         (''guestDetails.email'', ''Guest email is required'')]"
    by (simp add: fieldErrors_def exampleInput_def listingTypeInvalid_def truthy_def
        adultsInvalid_def guestNameMissing_def guestEmailMissing_def)
  have 1: "createBooking exampleEnv emptyStore ?inp =
     (Inl (SendError ''Validation failed'' 400
        [(''guests.adults'', ''At least 1 adult guest is required''),
         (''guestDetails.email'', ''Guest email is required'')]), emptyStore)"
    using createBooking_two_phase[of ?inp exampleEnv emptyStore, THEN conjunct1]
    unfolding fe by simp
  have d: "fieldErrors ?inp2 = [] \<and>
      newDate exampleEnv (input_checkIn ?inp2) = Some 1749945600000 \<and>
      now exampleEnv < 1749945600000 \<and>
      newDate exampleEnv (input_checkOut ?inp2) = Some 1749513600000 \<and>
      (1749513600000::int) \<le> 1749945600000"
    by (simp add: exampleInput_valid)
       (simp add: newDate_def exampleInput_def exampleEnv_def exampleParse_def)
  have 2: "createBooking exampleEnv emptyStore ?inp2 =
     (Inl (SendError ''Validation failed'' 400
        [(''checkOut'', ''Check-out date must be after check-in date'')]), emptyStore)"
    using createBooking_two_phase
      [of ?inp2 exampleEnv emptyStore 1749945600000 1749513600000] d
    by (elim conjE) (erule mp, intro conjI, assumption+)
  from 1 2 show ?thesis by (rule conjI)
qed

text \<open>
  Claim C10. When all presence checks pass and both date rules are violated (the check-in
  is not after the current time and the check-out is not after the check-in),
  \<^verbatim>\<open>createBooking\<close> answers with the check-in entry alone: the check-out entry is not
  part of that response.
\<close>

theorem createBooking_checkIn_precedence:
  assumes "fieldErrors inp = []"
    and "newDate e (input_checkIn inp) = Some ci" and "ci \<le> now e"
    and "newDate e (input_checkOut inp) = Some co" and "co \<le> ci"
  shows "createBooking e s inp =
           (Inl (SendError ''Validation failed'' 400
                  [(''checkIn'', ''Check-in date must be in the future'')]), s) \<and>
         (\<forall>msg code errs s'. createBooking e s inp = (Inl (SendError msg code errs), s') \<longrightarrow>
            (''checkOut'', ''Check-out date must be after check-in date'') \<notin> set errs)"
proof -
  have run: "createBooking e s inp =
           (Inl (SendError ''Validation failed'' 400
                  [(''checkIn'', ''Check-in date must be in the future'')]), s)"
    using assms(1-3) by (rule createBooking_checkIn_past)
  show ?thesis unfolding run by simp
qed

theorem createBooking_checkIn_precedence_witness:
  "createBooking exampleEnv emptyStore (exampleInput ''homestay'' ''h1'' ''2024-06-10'' ''2024-06-01'') =
     (Inl (SendError ''Validation failed'' 400
        [(''checkIn'', ''Check-in date must be in the future'')]), emptyStore)"
proof -
  let ?inp = "exampleInput ''homestay'' ''h1'' ''2024-06-10'' ''2024-06-01''"
  have h: "fieldErrors ?inp = []"
    "newDate exampleEnv (input_checkIn ?inp) = Some 1717977600000"
    "1717977600000 \<le> now exampleEnv"
    "newDate exampleEnv (input_checkOut ?inp) = Some 1717200000000"
    "(1717200000000::int) \<le> 1717977600000"
    by (simp_all add: exampleInput_valid)
       (simp_all add: newDate_def exampleInput_def exampleEnv_def exampleParse_def)
  from createBooking_checkIn_precedence[OF h, of emptyStore] show ?thesis by (rule conjunct1)
qed

subsection \<open>Admission and persistence\<close>

lemma fieldErrors_Nil_inputs:
  assumes "fieldErrors inp = []"
  shows "\<exists>lt lid. input_listingType inp = Some lt \<and> input_listingId inp = Some lid"
proof -
  from assms have "\<not> listingTypeInvalid inp" "truthy (input_listingId inp)"
    by (auto simp: fieldErrors_def split: if_splits)
  then show ?thesis
    by (auto simp: listingTypeInvalid_def truthy_def split: option.splits)
qed

lemma checkAdmission_dates:
  assumes "fieldErrors inp = []"
    and "input_listingType inp = Some lt" and "input_listingId inp = Some lid"
    and "newDate e (input_checkIn inp) = Some ci"
    and "newDate e (input_checkOut inp) = Some co"
  shows "checkAdmission e s inp =
    (if ci \<le> now e
     then Inl (SendError ''Validation failed'' 400
                 [(''checkIn'', ''Check-in date must be in the future'')])
     else if co \<le> ci
     then Inl (SendError ''Validation failed'' 400
                 [(''checkOut'', ''Check-out date must be after check-in date'')])
     else (case hasDateConflict e s lid ci co None of
             Throws \<Rightarrow> Inl createFailed
           | Returns (Some conflicting) \<Rightarrow>
               Inl (ConflictResponse
                 \<lparr>requestedCheckIn = input_checkIn inp,
                  requestedCheckOut = input_checkOut inp,
                  conflictingBooking =
                    \<lparr>conflict_id = booking_id conflicting,
                     conflict_checkIn = split_T_0 (toISOString (checkIn conflicting)),
                     conflict_checkOut = split_T_0 (toISOString (checkOut conflicting))\<rparr>\<rparr>)
           | Returns None \<Rightarrow>
               Inr \<lparr>adm_input = inp, adm_listingType = lt, adm_listingId = lid,
                    adm_checkIn = ci, adm_checkOut = co\<rparr>))"
  unfolding checkAdmission_def Let_def assms date_le_def by simp

lemma checkAdmission_invalid_date:
  assumes "fieldErrors inp = []"
    and "newDate e (input_checkIn inp) = None \<or> newDate e (input_checkOut inp) = None"
  shows "\<exists>err. checkAdmission e s inp = Inl err"
proof -
  from fieldErrors_Nil_inputs[OF assms(1)] obtain lt lid where
    i: "input_listingType inp = Some lt" "input_listingId inp = Some lid" by blast
  show ?thesis
    unfolding checkAdmission_def Let_def assms(1) i date_le_def
    using assms(2) by (auto split: option.splits)
qed

lemma checkAdmission_Inr:
  assumes "checkAdmission e s inp = Inr a"
  shows "fieldErrors inp = [] \<and> adm_input a = inp \<and>
         input_listingType inp = Some (adm_listingType a) \<and>
         input_listingId inp = Some (adm_listingId a) \<and>
         newDate e (input_checkIn inp) = Some (adm_checkIn a) \<and>
         newDate e (input_checkOut inp) = Some (adm_checkOut a) \<and>
         now e < adm_checkIn a \<and> adm_checkIn a < adm_checkOut a \<and>
         dbAvailable e \<and>
         find (conflictQuery (adm_listingId a) (adm_checkIn a) (adm_checkOut a) None)
           (bookings s) = None"
proof -
  have fe: "fieldErrors inp = []"
  proof (rule ccontr)
    assume "fieldErrors inp \<noteq> []"
    then have "checkAdmission e s inp = Inl (SendError ''Validation failed'' 400 (fieldErrors inp))"
      by (simp add: checkAdmission_def Let_def)
    with assms show False by simp
  qed
  from fieldErrors_Nil_inputs[OF fe] obtain lt lid where
    i: "input_listingType inp = Some lt" "input_listingId inp = Some lid" by blast
  from checkAdmission_invalid_date[OF fe, of e s] assms obtain ci co where
    d: "newDate e (input_checkIn inp) = Some ci" "newDate e (input_checkOut inp) = Some co"
    by (cases "newDate e (input_checkIn inp)"; cases "newDate e (input_checkOut inp)") auto
  note eq = checkAdmission_dates[OF fe i d, of s]
  from assms have r: "now e < ci" "ci < co"
    unfolding eq by (auto split: if_splits)
  with assms have c: "hasDateConflict e s lid ci co None = Returns None"
    and a: "a = \<lparr>adm_input = inp, adm_listingType = lt, adm_listingId = lid,
                         adm_checkIn = ci, adm_checkOut = co\<rparr>"
    unfolding eq by (auto split: outcome.splits option.splits)
  from c have "dbAvailable e" "find (conflictQuery lid ci co None) (bookings s) = None"
    by (auto simp: hasDateConflict_def BookingModel_findOne_def split: if_splits)
  with fe i d r a show ?thesis by simp
qed

lemma persistBooking_Saved:
  assumes "counterAvailable e" "saveOutcome e = Saved"
  shows "persistBooking e s a =
    (Inr (newBooking (s\<lparr>counter := Suc (counter s)\<rparr>) a
            (getListingTitle e (adm_listingType a) (adm_listingId a)) (Suc (counter s))),
     s\<lparr>counter := Suc (counter s),
       bookings := bookings s @
         [newBooking (s\<lparr>counter := Suc (counter s)\<rparr>) a
            (getListingTitle e (adm_listingType a) (adm_listingId a)) (Suc (counter s))],
       nextId := Suc (nextId s)\<rparr>)"
  using assms by (simp add: persistBooking_def getNextBookingNumber_def Let_def)

lemma persistBooking_Inr:
  assumes "persistBooking e s a = (Inr b, s')"
  shows "counterAvailable e \<and> saveOutcome e = Saved \<and>
         b = newBooking (s\<lparr>counter := Suc (counter s)\<rparr>) a
               (getListingTitle e (adm_listingType a) (adm_listingId a)) (Suc (counter s)) \<and>
         bookings s' = bookings s @ [b]"
  using assms
  by (auto simp: persistBooking_def getNextBookingNumber_def Let_def
      split: if_splits save_outcome.splits)

lemma persistBooking_Inl:
  assumes "persistBooking e s a = (Inl err, s')"
  shows "bookings s' = bookings s"
  using assms
  by (auto simp: persistBooking_def getNextBookingNumber_def Let_def
      split: if_splits save_outcome.splits)

lemma newDate_title_stores:
  "newDate (e\<lparr>HomestayModel_findById := h, GuideModel_findById := g\<rparr>) v = newDate e v"
  by (cases v) (simp_all add: newDate_def)

lemma hasDateConflict_title_stores:
  "hasDateConflict (e\<lparr>HomestayModel_findById := h, GuideModel_findById := g\<rparr>) s lid ci co x =
   hasDateConflict e s lid ci co x"
  by (simp add: hasDateConflict_def BookingModel_findOne_def)

lemma checkAdmission_title_stores:
  "checkAdmission (e\<lparr>HomestayModel_findById := h, GuideModel_findById := g\<rparr>) s inp =
   checkAdmission e s inp"
  unfolding checkAdmission_def newDate_title_stores hasDateConflict_title_stores
  by (simp cong: if_cong)

lemma persistBooking_title_stores:
  "isl (fst (persistBooking (e\<lparr>HomestayModel_findById := h, GuideModel_findById := g\<rparr>) s a)) =
   isl (fst (persistBooking e s a))"
  by (simp add: persistBooking_def getNextBookingNumber_def Let_def
      split: save_outcome.splits)

lemma optionalField_absent:
  "optionalField Throws = None" "optionalField (Returns None) = None"
  by (simp_all add: optionalField_def)

lemma exampleInput_guide_valid:
  "fieldErrors (exampleInput ''guide'' ''g1'' (c # cs) (d # ds)) = []"
  by (simp add: fieldErrors_def exampleInput_def listingTypeInvalid_def truthy_def
      adultsInvalid_def guestNameMissing_def guestEmailMissing_def)

lemma exampleInput_fields:
  "input_listingType (exampleInput lt lid ci co) = Some lt"
  "input_listingId (exampleInput lt lid ci co) = Some lid"
  "input_checkIn (exampleInput lt lid ci co) = Some ci"
  "input_checkOut (exampleInput lt lid ci co) = Some co"
  by (simp_all add: exampleInput_def)

lemma exampleEnv_fields:
  "now exampleEnv = 1735689600000"
  "parseDate exampleEnv = exampleParse"
  "dbAvailable exampleEnv" "counterAvailable exampleEnv" "saveOutcome exampleEnv = Saved"
  by (simp_all add: exampleEnv_def)

lemma exampleParse_values:
  "exampleParse ''2025-06-10'' = Some 1749513600000"
  "exampleParse ''2025-06-12'' = Some 1749686400000"
  "exampleParse ''2025-06-12T14:30:00.000Z'' = Some 1749738600000"
  "exampleParse ''2025-06-15'' = Some 1749945600000"
  "exampleParse ''2025-06-18'' = Some 1750204800000"
  "exampleParse ''2025-06-20'' = Some 1750377600000"
  by (simp_all add: exampleParse_def)

text \<open>
  Claim C8. Title resolution is best-effort. \<^verbatim>\<open>getListingTitle\<close> yields no title for
  an unknown listing type, for a listing that is not found and for a lookup that throws.
  Whether \<^verbatim>\<open>createBooking\<close> fails does not depend on the listing stores at all; and for
  an input that passes validation and the conflict check (the counter and the save
  working), the booking is created and stored with the title that the lookup gave, absent
  in those three cases, with \<^verbatim>\<open>status\<close> pending and \<^verbatim>\<open>paymentStatus\<close> pending.
\<close>

theorem listing_title_best_effort:
  "(lt \<noteq> ''homestay'' \<and> lt \<noteq> ''guide'' \<longrightarrow> getListingTitle e lt lid = None) \<and>
   (HomestayModel_findById e lid = Throws \<or> HomestayModel_findById e lid = Returns None
      \<longrightarrow> getListingTitle e ''homestay'' lid = None) \<and>
   (GuideModel_findById e lid = Throws \<or> GuideModel_findById e lid = Returns None
      \<longrightarrow> getListingTitle e ''guide'' lid = None) \<and>
   isl (fst (createBooking (e\<lparr>HomestayModel_findById := h, GuideModel_findById := g\<rparr>) s inp)) =
     isl (fst (createBooking e s inp)) \<and>
   (checkAdmission e s inp = Inr a \<and> counterAvailable e \<and> saveOutcome e = Saved \<longrightarrow>
      (\<exists>b s' t i. createBooking e s inp = (Inr b, s') \<and>
         bookings s' = bookings s @ [b] \<and>
         input_listingType inp = Some t \<and> input_listingId inp = Some i \<and>
         listingTitle b = getListingTitle e t i \<and>
         status b = Pending \<and> paymentStatus b = ''pending''))"
proof (intro conjI impI)
  assume "lt \<noteq> ''homestay'' \<and> lt \<noteq> ''guide''"
  then show "getListingTitle e lt lid = None"
    by (simp add: getListingTitle_def)
next
  assume "HomestayModel_findById e lid = Throws \<or> HomestayModel_findById e lid = Returns None"
  then show "getListingTitle e ''homestay'' lid = None"
    by (auto simp: getListingTitle_def optionalField_absent)
next
  assume "GuideModel_findById e lid = Throws \<or> GuideModel_findById e lid = Returns None"
  then show "getListingTitle e ''guide'' lid = None"
    by (auto simp: getListingTitle_def optionalField_absent)
next
  show "isl (fst (createBooking (e\<lparr>HomestayModel_findById := h, GuideModel_findById := g\<rparr>) s inp)) =
     isl (fst (createBooking e s inp))"
    unfolding createBooking_def checkAdmission_title_stores
    by (cases "checkAdmission e s inp") (simp_all add: persistBooking_title_stores)
next
  assume h: "checkAdmission e s inp = Inr a \<and> counterAvailable e \<and> saveOutcome e = Saved"
  then have adm: "checkAdmission e s inp = Inr a" by simp
  from h have p: "persistBooking e s a =
    (Inr (newBooking (s\<lparr>counter := Suc (counter s)\<rparr>) a
            (getListingTitle e (adm_listingType a) (adm_listingId a)) (Suc (counter s))),
     s\<lparr>counter := Suc (counter s),
       bookings := bookings s @
         [newBooking (s\<lparr>counter := Suc (counter s)\<rparr>) a
            (getListingTitle e (adm_listingType a) (adm_listingId a)) (Suc (counter s))],
       nextId := Suc (nextId s)\<rparr>)"
    by (intro persistBooking_Saved) simp_all
  from checkAdmission_Inr[OF adm] have
    i: "input_listingType inp = Some (adm_listingType a)"
       "input_listingId inp = Some (adm_listingId a)" by simp_all
  show "\<exists>b s' t i. createBooking e s inp = (Inr b, s') \<and>
         bookings s' = bookings s @ [b] \<and>
         input_listingType inp = Some t \<and> input_listingId inp = Some i \<and>
         listingTitle b = getListingTitle e t i \<and>
         status b = Pending \<and> paymentStatus b = ''pending''"
    by (simp add: createBooking_def adm i p newBooking_def)
qed

theorem listing_title_best_effort_witness:
  "\<exists>b s'. createBooking exampleEnv emptyStore
            (exampleInput ''guide'' ''g1'' ''2025-06-10'' ''2025-06-15'') = (Inr b, s') \<and>
          listingTitle b = None \<and> status b = Pending \<and> paymentStatus b = ''pending'' \<and>
          bookings s' = [b]"
proof -
  let ?inp = "exampleInput ''guide'' ''g1'' ''2025-06-10'' ''2025-06-15''"
  let ?a = "\<lparr>adm_input = ?inp, adm_listingType = ''guide'', adm_listingId = ''g1'',
             adm_checkIn = 1749513600000, adm_checkOut = 1749945600000\<rparr>"
  have c: "hasDateConflict exampleEnv emptyStore ''g1'' 1749513600000 1749945600000 None
             = Returns None"
    by (simp add: hasDateConflict_def BookingModel_findOne_def emptyStore_def exampleEnv_fields)
  have adm: "checkAdmission exampleEnv emptyStore ?inp = Inr ?a"
    by (subst checkAdmission_dates[where lt="''guide''" and lid="''g1''"
          and ci=1749513600000 and co=1749945600000])
       (simp_all add: exampleInput_guide_valid exampleInput_fields newDate_def
          exampleEnv_fields exampleParse_values c)
  have h: "checkAdmission exampleEnv emptyStore ?inp = Inr ?a \<and>
           counterAvailable exampleEnv \<and> saveOutcome exampleEnv = Saved"
    using adm by (simp add: exampleEnv_fields)
  have g: "GuideModel_findById exampleEnv ''g1'' = Throws \<or>
           GuideModel_findById exampleEnv ''g1'' = Returns None"
    by (simp add: exampleEnv_def)
  have i: "bookings emptyStore = []"
    by (simp add: emptyStore_def)
  note t = listing_title_best_effort
             [of "''guide''" exampleEnv "''g1''" "HomestayModel_findById exampleEnv"
                 "GuideModel_findById exampleEnv" emptyStore ?inp ?a]
  from t have "GuideModel_findById exampleEnv ''g1'' = Throws \<or>
               GuideModel_findById exampleEnv ''g1'' = Returns None
               \<longrightarrow> getListingTitle exampleEnv ''guide'' ''g1'' = None"
    by (elim conjE)
  from this g have none: "getListingTitle exampleEnv ''guide'' ''g1'' = None" by (rule mp)
  from t have "checkAdmission exampleEnv emptyStore ?inp = Inr ?a \<and>
           counterAvailable exampleEnv \<and> saveOutcome exampleEnv = Saved \<longrightarrow>
      (\<exists>b s' t i. createBooking exampleEnv emptyStore ?inp = (Inr b, s') \<and>
         bookings s' = bookings emptyStore @ [b] \<and>
         input_listingType ?inp = Some t \<and> input_listingId ?inp = Some i \<and>
         listingTitle b = getListingTitle exampleEnv t i \<and>
         status b = Pending \<and> paymentStatus b = ''pending'')"
    by (elim conjE)
  from this h have "\<exists>b s' t i. createBooking exampleEnv emptyStore ?inp = (Inr b, s') \<and>
         bookings s' = bookings emptyStore @ [b] \<and>
         input_listingType ?inp = Some t \<and> input_listingId ?inp = Some i \<and>
         listingTitle b = getListingTitle exampleEnv t i \<and>
         status b = Pending \<and> paymentStatus b = ''pending''"
    by (rule mp)
  then show ?thesis
  proof (elim exE conjE)
    fix b s' t' i'
    assume r: "createBooking exampleEnv emptyStore ?inp = (Inr b, s')"
      "bookings s' = bookings emptyStore @ [b]"
      "input_listingType ?inp = Some t'" "input_listingId ?inp = Some i'"
      "listingTitle b = getListingTitle exampleEnv t' i'"
      "status b = Pending" "paymentStatus b = ''pending''"
    from r(3,4) have "t' = ''guide''" "i' = ''g1''"
      by (simp_all only: exampleInput_fields option.inject)
    with r none i show ?thesis by simp
  qed
qed

subsection \<open>The safety invariant\<close>

lemma disjointStays_iff:
  "disjointStays a b \<longleftrightarrow>
     \<not> (max (checkIn a) (checkIn b) < min (checkOut a) (checkOut b))"
  by (simp add: disjointStays_def)

lemma no_conflict_disjoint:
  assumes "\<not> (checkIn x < co \<and> checkOut x > ci)" "checkIn b = ci" "checkOut b = co"
  shows "disjointStays x b" "disjointStays b x"
  using assms by (auto simp: disjointStays_iff)

lemma noOverlap_append:
  assumes inv: "noOverlap bs"
    and new: "\<forall>x\<in>set bs. listingId x = listingId b \<and> status x \<noteq> Cancelled \<longrightarrow>
                \<not> (checkIn x < checkOut b \<and> checkOut x > checkIn b)"
  shows "noOverlap (bs @ [b])"
  unfolding noOverlap_def
proof (intro allI impI, elim conjE)
  fix i j
  assume i: "i < length (bs @ [b])" and j: "j < length (bs @ [b])" and ne: "i \<noteq> j"
    and l: "listingId ((bs @ [b]) ! i) = listingId ((bs @ [b]) ! j)"
    and si: "status ((bs @ [b]) ! i) \<noteq> Cancelled"
    and sj: "status ((bs @ [b]) ! j) \<noteq> Cancelled"
  consider (old) "i < length bs" "j < length bs"
    | (left) "i < length bs" "j = length bs"
    | (right) "i = length bs" "j < length bs"
    using i j ne by (cases "i < length bs"; cases "j < length bs") auto
  then show "disjointStays ((bs @ [b]) ! i) ((bs @ [b]) ! j)"
  proof cases
    case old
    with inv ne l si sj show ?thesis
      by (simp add: noOverlap_def nth_append)
  next
    case left
    then have x: "bs ! i \<in> set bs" by simp
    from left l si have "listingId (bs ! i) = listingId b" "status (bs ! i) \<noteq> Cancelled"
      by (simp_all add: nth_append)
    with new x have "\<not> (checkIn (bs ! i) < checkOut b \<and> checkOut (bs ! i) > checkIn b)"
      by blast
    then have "disjointStays (bs ! i) b"
      by (rule no_conflict_disjoint) simp_all
    with left show ?thesis by (simp add: nth_append)
  next
    case right
    then have x: "bs ! j \<in> set bs" by simp
    from right l sj have "listingId (bs ! j) = listingId b" "status (bs ! j) \<noteq> Cancelled"
      by (simp_all add: nth_append)
    with new x have "\<not> (checkIn (bs ! j) < checkOut b \<and> checkOut (bs ! j) > checkIn b)"
      by blast
    then have "disjointStays b (bs ! j)"
      by (rule no_conflict_disjoint) simp_all
    with right show ?thesis by (simp add: nth_append)
  qed
qed

lemma saveDocument_nth:
  "length (saveDocument d bs) = length bs \<and>
   (\<forall>i<length bs. saveDocument d bs ! i = bs ! i \<or> saveDocument d bs ! i = d)"
proof (induction bs)
  case Nil
  then show ?case by simp
next
  case (Cons b bs)
  show ?case
  proof (cases "booking_id b = booking_id d")
    case True
    then show ?thesis by (auto simp: nth_Cons split: nat.splits)
  next
    case False
    with Cons show ?thesis by (auto simp: nth_Cons split: nat.splits)
  qed
qed

lemma noOverlap_saveDocument:
  assumes inv: "noOverlap bs" and d: "status d = Cancelled"
  shows "noOverlap (saveDocument d bs)"
  unfolding noOverlap_def
proof (intro allI impI, elim conjE)
  let ?bs' = "saveDocument d bs"
  fix i j
  assume i: "i < length ?bs'" and j: "j < length ?bs'" and ne: "i \<noteq> j"
    and l: "listingId (?bs' ! i) = listingId (?bs' ! j)"
    and si: "status (?bs' ! i) \<noteq> Cancelled" and sj: "status (?bs' ! j) \<noteq> Cancelled"
  from saveDocument_nth[of d bs] i j have len: "i < length bs" "j < length bs"
    and "?bs' ! i = bs ! i \<or> ?bs' ! i = d" "?bs' ! j = bs ! j \<or> ?bs' ! j = d"
    by simp_all
  with si sj d have same: "?bs' ! i = bs ! i" "?bs' ! j = bs ! j" by auto
  from inv len ne l si sj show "disjointStays (?bs' ! i) (?bs' ! j)"
    unfolding same by (simp add: noOverlap_def)
qed

lemma createBooking_Inr:
  assumes "createBooking e s inp = (Inr b, s')"
  shows "\<exists>a. checkAdmission e s inp = Inr a \<and> persistBooking e s a = (Inr b, s')"
  using assms by (cases "checkAdmission e s inp") (simp_all add: createBooking_def)

lemma createBooking_Inl:
  assumes "createBooking e s inp = (Inl err, s')"
  shows "bookings s' = bookings s"
proof (cases "checkAdmission e s inp")
  case (Inl x)
  with assms show ?thesis by (simp add: createBooking_def)
next
  case (Inr a)
  with assms have "persistBooking e s a = (Inl err, s')" by (simp add: createBooking_def)
  then show ?thesis by (rule persistBooking_Inl)
qed

lemma createBooking_admitted:
  assumes "createBooking e s inp = (Inr b, s')"
  shows "bookings s' = bookings s @ [b] \<and> status b = Pending \<and> checkIn b < checkOut b \<and>
         now e < checkIn b \<and> input_listingId inp = Some (listingId b) \<and>
         newDate e (input_checkIn inp) = Some (checkIn b) \<and>
         newDate e (input_checkOut inp) = Some (checkOut b) \<and>
         (\<forall>x\<in>set (bookings s). listingId x = listingId b \<and> status x \<noteq> Cancelled \<longrightarrow>
            \<not> (checkIn x < checkOut b \<and> checkOut x > checkIn b))"
proof -
  from createBooking_Inr[OF assms] obtain a where
    adm: "checkAdmission e s inp = Inr a" and p: "persistBooking e s a = (Inr b, s')"
    by blast
  note A = checkAdmission_Inr[OF adm]
  note P = persistBooking_Inr[OF p]
  from P have b: "listingId b = adm_listingId a" "checkIn b = adm_checkIn a"
    "checkOut b = adm_checkOut a" "status b = Pending"
    by (simp_all add: newBooking_def)
  from A have "find (conflictQuery (listingId b) (checkIn b) (checkOut b) None) (bookings s) = None"
    by (simp add: b)
  then have "\<forall>x\<in>set (bookings s). \<not> conflictQuery (listingId b) (checkIn b) (checkOut b) None x"
    by (simp add: find_None_iff)
  then have "\<forall>x\<in>set (bookings s). listingId x = listingId b \<and> status x \<noteq> Cancelled \<longrightarrow>
            \<not> (checkIn x < checkOut b \<and> checkOut x > checkIn b)"
    by (auto simp: conflictQuery_def)
  with A P b show ?thesis by simp
qed

lemma createBooking_noOverlap:
  assumes "noOverlap (bookings s)"
  shows "noOverlap (bookings (snd (createBooking e s inp)))"
proof (cases "createBooking e s inp")
  case (Pair r s')
  show ?thesis
  proof (cases r)
    case (Inl err)
    with Pair have "bookings s' = bookings s" by (intro createBooking_Inl) simp
    with assms Pair show ?thesis by simp
  next
    case (Inr b)
    with Pair have run: "createBooking e s inp = (Inr b, s')" by simp
    from createBooking_admitted[OF run] assms have "noOverlap (bookings s @ [b])"
      by (intro noOverlap_append) simp_all
    with createBooking_admitted[OF run] Pair show ?thesis by simp
  qed
qed

lemma cancelBooking_noOverlap:
  assumes "noOverlap (bookings s)"
  shows "noOverlap (bookings (snd (cancelBooking e s i inp)))"
proof (cases "cancelBooking e s i inp")
  case (Pair r s')
  show ?thesis
  proof (cases r)
    case (Inl err)
    with Pair have "s' = s" by (intro cancelBooking_Inl) simp
    with assms Pair show ?thesis by simp
  next
    case (Inr res)
    with Pair have "cancelBooking e s i inp = (Inr res, s')" by simp
    from cancelBooking_Inr[OF this] obtain b where
      "s' = s\<lparr>bookings := saveDocument
                  (b\<lparr>status := Cancelled, cancellationReason := reason inp,
                     cancelledAt := Some (now e)\<rparr>) (bookings s)\<rparr>" by blast
    with assms Pair show ?thesis by (simp add: noOverlap_saveDocument)
  qed
qed

lemma handle_noOverlap:
  assumes "noOverlap (bookings s)"
  shows "noOverlap (bookings (handle s r))"
  using assms by (cases r) (simp_all add: createBooking_noOverlap cancelBooking_noOverlap)

lemma createBooking_example:
  assumes "exampleParse ci = Some a" "exampleParse co = Some b" "1735689600000 < a" "a < b"
  shows "createBooking exampleEnv s (exampleInput ''homestay'' ''h1'' ci co) =
    (case find (conflictQuery ''h1'' a b None) (bookings s) of
       Some c \<Rightarrow>
         (Inl (ConflictResponse
            \<lparr>requestedCheckIn = Some ci, requestedCheckOut = Some co,
             conflictingBooking =
               \<lparr>conflict_id = booking_id c,
                conflict_checkIn = split_T_0 (toISOString (checkIn c)),
                conflict_checkOut = split_T_0 (toISOString (checkOut c))\<rparr>\<rparr>), s)
     | None \<Rightarrow>
         persistBooking exampleEnv s
           \<lparr>adm_input = exampleInput ''homestay'' ''h1'' ci co,
            adm_listingType = ''homestay'', adm_listingId = ''h1'',
            adm_checkIn = a, adm_checkOut = b\<rparr>)"
proof -
  from assms(1,2) have ne: "ci \<noteq> []" "co \<noteq> []"
    by (auto simp: exampleParse_def)
  then obtain c cs d ds where s: "ci = c # cs" "co = d # ds"
    by (cases ci; cases co) auto
  have fe: "fieldErrors (exampleInput ''homestay'' ''h1'' ci co) = []"
    unfolding s by (rule exampleInput_valid)
  have adm: "checkAdmission exampleEnv s (exampleInput ''homestay'' ''h1'' ci co) =
     (case hasDateConflict exampleEnv s ''h1'' a b None of
             Throws \<Rightarrow> Inl createFailed
           | Returns (Some conflicting) \<Rightarrow>
               Inl (ConflictResponse
                 \<lparr>requestedCheckIn = Some ci,
                  requestedCheckOut = Some co,
                  conflictingBooking =
                    \<lparr>conflict_id = booking_id conflicting,
                     conflict_checkIn = split_T_0 (toISOString (checkIn conflicting)),
                     conflict_checkOut = split_T_0 (toISOString (checkOut conflicting))\<rparr>\<rparr>)
           | Returns None \<Rightarrow>
               Inr \<lparr>adm_input = exampleInput ''homestay'' ''h1'' ci co,
                    adm_listingType = ''homestay'', adm_listingId = ''h1'',
                    adm_checkIn = a, adm_checkOut = b\<rparr>)"
    using assms
    by (subst checkAdmission_dates[where lt="''homestay''" and lid="''h1''" and ci=a and co=b])
       (simp_all add: fe exampleInput_fields newDate_def exampleEnv_fields
          cong: outcome.case_cong option.case_cong)
  show ?thesis
    unfolding createBooking_def adm
    by (simp add: hasDateConflict_def BookingModel_findOne_def exampleEnv_fields
        split: option.splits)
qed

lemma createBooking_rejects_overlap:
  assumes "x \<in> set (bookings s)" "status x \<noteq> Cancelled"
    and "input_listingId inp = Some (listingId x)"
    and "newDate e (input_checkIn inp) = Some ci" "newDate e (input_checkOut inp) = Some co"
    and "checkIn x < co" "checkOut x > ci"
  shows "\<exists>err. createBooking e s inp = (Inl err, s)"
proof (cases "checkAdmission e s inp")
  case (Inl err)
  then show ?thesis by (simp add: createBooking_def)
next
  case (Inr a)
  note A = checkAdmission_Inr[OF Inr]
  from A assms(3-5) have a: "adm_checkIn a = ci" "adm_checkOut a = co"
    "adm_listingId a = listingId x"
    by simp_all
  from A have "find (conflictQuery (adm_listingId a) (adm_checkIn a) (adm_checkOut a) None)
                 (bookings s) = None" by simp
  with assms(1) have "\<not> conflictQuery (listingId x) ci co None x"
    unfolding a by (simp add: find_None_iff)
  with assms(2,6,7) have False by (simp add: conflictQuery_def)
  then show ?thesis ..
qed

text \<open>
  Claim C1, amended. On every listing the bookings that are not cancelled have pairwise
  disjoint stays \<open>[checkIn, checkOut)\<close>, and every sequence of \<^verbatim>\<open>createBooking\<close>
  and \<^verbatim>\<open>cancelBooking\<close> requests that are handled one after the other, each handler
  running to its answer before the next begins, keeps it so: a store that satisfies the
  invariant satisfies it after the sequence, whichever requests succeed. The reason is the
  admission check: a creation request is refused, and the store left as it is, whenever a
  stored booking on the same listing that is not cancelled overlaps the requested range.
  For creation requests in flight at once the invariant is not preserved; the
  counterexample is in the section on concurrent creation requests.
\<close>

theorem noOverlap_invariant:
  "(noOverlap (bookings s) \<longrightarrow> noOverlap (bookings (handleAll s rs))) \<and>
   (x \<in> set (bookings s) \<and> status x \<noteq> Cancelled \<and>
    input_listingId inp = Some (listingId x) \<and>
    newDate e (input_checkIn inp) = Some ci \<and> newDate e (input_checkOut inp) = Some co \<and>
    checkIn x < co \<and> checkOut x > ci
    \<longrightarrow> (\<exists>err. createBooking e s inp = (Inl err, s)))"
proof (intro conjI impI)
  assume "noOverlap (bookings s)"
  then show "noOverlap (bookings (handleAll s rs))"
    unfolding handleAll_def
  proof (induction rs arbitrary: s)
    case Nil
    then show ?case by simp
  next
    case (Cons r rs)
    from Cons.prems have "noOverlap (bookings (handle s r))" by (rule handle_noOverlap)
    then show ?case by (simp add: Cons.IH)
  qed
next
  assume "x \<in> set (bookings s) \<and> status x \<noteq> Cancelled \<and>
    input_listingId inp = Some (listingId x) \<and>
    newDate e (input_checkIn inp) = Some ci \<and> newDate e (input_checkOut inp) = Some co \<and>
    checkIn x < co \<and> checkOut x > ci"
  then show "\<exists>err. createBooking e s inp = (Inl err, s)"
    by (intro createBooking_rejects_overlap[of x s inp e ci co]) simp_all
qed

theorem noOverlap_invariant_witness:
  "noOverlap (bookings emptyStore) \<and>
   noOverlap (bookings (handleAll emptyStore exampleRequests)) \<and>
   map (\<lambda>b. (booking_id b, checkIn b, checkOut b, status b))
       (bookings (handleAll emptyStore exampleRequests)) =
     [(0, 1749513600000, 1749945600000, Cancelled),
      (1, 1749686400000, 1750204800000, Pending),
      (2, 1750204800000, 1750377600000, Pending)]"
proof -
  have h: "noOverlap (bookings emptyStore)"
    by (simp add: noOverlap_def emptyStore_def)
  have run: "map (\<lambda>b. (booking_id b, checkIn b, checkOut b, status b))
       (bookings (handleAll emptyStore exampleRequests)) =
     [(0, 1749513600000, 1749945600000, Cancelled),
      (1, 1749686400000, 1750204800000, Pending),
      (2, 1750204800000, 1750377600000, Pending)]"
    by (simp add: handleAll_def exampleRequests_def emptyStore_def
      createBooking_example[OF exampleParse_values(1) exampleParse_values(4)]
      createBooking_example[OF exampleParse_values(2) exampleParse_values(5)]
      createBooking_example[OF exampleParse_values(5) exampleParse_values(6)]
      persistBooking_Saved exampleEnv_fields newBooking_def conflictQuery_def
      cancelBooking_def)
  from noOverlap_invariant[of emptyStore exampleRequests, THEN conjunct1] h
  have "noOverlap (bookings (handleAll emptyStore exampleRequests))" by (rule mp)
  with h run show ?thesis by (intro conjI)
qed

subsection \<open>The conflict response\<close>

text \<open>The date part of an ISO string holds no \<^verbatim>\<open>T\<close>, so the split returns it whole.\<close>

lemma digit_not_T: "digit n \<noteq> CHR ''T''"
proof -
  have "digit n \<in> set ''0123456789''"
    unfolding digit_def by (rule nth_mem) simp
  then show ?thesis by auto
qed

lemma pad_no_T: "CHR ''T'' \<notin> set (pad w n)"
  by (induction w arbitrary: n) (simp_all add: digit_not_T[symmetric])

lemma yearString_no_T: "CHR ''T'' \<notin> set (yearString y)"
  by (simp add: yearString_def pad_no_T)

lemma isoDate_no_T: "CHR ''T'' \<notin> set (isoDate t)"
  by (simp add: isoDate_def yearString_no_T pad_no_T split: prod.splits)

lemma split_T_0_toISOString: "split_T_0 (toISOString t) = isoDate t"
proof -
  have "\<forall>c\<in>set (isoDate t). c \<noteq> CHR ''T''"
    using isoDate_no_T[of t] by auto
  then have "takeWhile (\<lambda>c. c \<noteq> CHR ''T'') (isoDate t @ CHR ''T'' # (isoTime t @ ''Z'')) = isoDate t"
    by (simp add: takeWhile_tail)
  then show ?thesis by (simp add: split_T_0_def toISOString_def)
qed

lemma pad_unfold:
  "pad 2 n = [digit (n div 10), digit n]"
  "pad 3 n = [digit (n div 10 div 10), digit (n div 10), digit n]"
  "pad 4 n = [digit (n div 10 div 10 div 10), digit (n div 10 div 10), digit (n div 10), digit n]"
proof -
  have n: "(2::nat) = Suc (Suc 0)" "(3::nat) = Suc (Suc (Suc 0))"
    "(4::nat) = Suc (Suc (Suc (Suc 0)))" by simp_all
  show "pad 2 n = [digit (n div 10), digit n]"
    by (simp only: n(1) pad.simps append.simps)
  show "pad 3 n = [digit (n div 10 div 10), digit (n div 10), digit n]"
    by (simp only: n(2) pad.simps append.simps)
  show "pad 4 n = [digit (n div 10 div 10 div 10), digit (n div 10 div 10), digit (n div 10), digit n]"
    by (simp only: n(3) pad.simps append.simps)
qed

text \<open>The model of \<^verbatim>\<open>toISOString\<close> on the epoch, the instant before it, and the examples.\<close>

lemma civil_from_days_examples:
  "civil_from_days 0 = (1970, 1, 1)"
  "civil_from_days (- 1) = (1969, 12, 31)"
  "civil_from_days 20249 = (2025, 6, 10)"
  "civil_from_days 20251 = (2025, 6, 12)"
  "civil_from_days 20254 = (2025, 6, 15)"
  unfolding civil_from_days_def Let_def by simp_all

lemma toISOString_epoch:
  "toISOString 0 = ''1970-01-01T00:00:00.000Z''"
  "toISOString (- 1) = ''1969-12-31T23:59:59.999Z''"
  by (simp_all add: toISOString_def isoDate_def isoTime_def msPerDay_def
      civil_from_days_examples yearString_def pad_unfold digit_def)

lemma isoDate_examples:
  "isoDate 1749513600000 = ''2025-06-10''"
  "isoDate 1749945600000 = ''2025-06-15''"
  "isoDate 1749738600000 = ''2025-06-12''"
  by (simp_all add: isoDate_def msPerDay_def civil_from_days_examples yearString_def
      pad_unfold digit_def)

lemma toISOString_example:
  "toISOString 1749738600000 = ''2025-06-12T14:30:00.000Z''"
  by (simp add: toISOString_def isoDate_examples isoTime_def msPerDay_def
      pad_unfold digit_def)

lemma checkAdmission_invalid_date_response:
  assumes "fieldErrors inp = []"
    and "newDate e (input_checkIn inp) = None \<or> newDate e (input_checkOut inp) = None"
  shows "\<exists>m c es. checkAdmission e s inp = Inl (SendError m c es)"
proof -
  from fieldErrors_Nil_inputs[OF assms(1)] obtain lt lid where
    i: "input_listingType inp = Some lt" "input_listingId inp = Some lid" by blast
  show ?thesis
    unfolding checkAdmission_def Let_def assms(1) i date_le_def createFailed_def
    using assms(2) by (auto split: option.splits)
qed

lemma persistBooking_no_conflict: "fst (persistBooking e s a) \<noteq> Inl (ConflictResponse d)"
  by (simp add: persistBooking_def getNextBookingNumber_def Let_def createFailed_def
      split: save_outcome.splits)

lemma createBooking_Conflict:
  assumes "createBooking e s inp = (Inl (ConflictResponse d), s')"
  shows "checkAdmission e s inp = Inl (ConflictResponse d) \<and> s' = s"
proof (cases "checkAdmission e s inp")
  case (Inl err)
  with assms show ?thesis by (simp add: createBooking_def)
next
  case (Inr a)
  with assms have "fst (persistBooking e s a) = Inl (ConflictResponse d)"
    by (simp add: createBooking_def)
  with persistBooking_no_conflict[of e s a d] show ?thesis by simp
qed

lemma checkAdmission_Conflict:
  assumes "checkAdmission e s inp = Inl (ConflictResponse d)"
  obtains lid ci co c where
    "input_listingId inp = Some lid"
    "newDate e (input_checkIn inp) = Some ci"
    "newDate e (input_checkOut inp) = Some co"
    "hasDateConflict e s lid ci co None = Returns (Some c)"
    "d = \<lparr>requestedCheckIn = input_checkIn inp,
          requestedCheckOut = input_checkOut inp,
          conflictingBooking =
            \<lparr>conflict_id = booking_id c,
             conflict_checkIn = split_T_0 (toISOString (checkIn c)),
             conflict_checkOut = split_T_0 (toISOString (checkOut c))\<rparr>\<rparr>"
proof -
  have fe: "fieldErrors inp = []"
  proof (rule ccontr)
    assume "fieldErrors inp \<noteq> []"
    then have "checkAdmission e s inp = Inl (SendError ''Validation failed'' 400 (fieldErrors inp))"
      by (simp add: checkAdmission_def Let_def)
    with assms show False by simp
  qed
  from fieldErrors_Nil_inputs[OF fe] obtain lt lid where
    i: "input_listingType inp = Some lt" "input_listingId inp = Some lid" by blast
  have "newDate e (input_checkIn inp) \<noteq> None \<and> newDate e (input_checkOut inp) \<noteq> None"
  proof (rule ccontr)
    assume "\<not> ?thesis"
    then have "newDate e (input_checkIn inp) = None \<or> newDate e (input_checkOut inp) = None"
      by simp
    from checkAdmission_invalid_date_response[OF fe this, of s] assms show False
      by auto
  qed
  then obtain ci co where
    dt: "newDate e (input_checkIn inp) = Some ci" "newDate e (input_checkOut inp) = Some co"
    by auto
  note eq = checkAdmission_dates[OF fe i dt, of s]
  from assms have r: "\<not> ci \<le> now e" "\<not> co \<le> ci"
    unfolding eq by (auto split: if_splits)
  from assms r have cs: "(case hasDateConflict e s lid ci co None of
             Throws \<Rightarrow> Inl createFailed
           | Returns (Some conflicting) \<Rightarrow>
               Inl (ConflictResponse
                 \<lparr>requestedCheckIn = input_checkIn inp,
                  requestedCheckOut = input_checkOut inp,
                  conflictingBooking =
                    \<lparr>conflict_id = booking_id conflicting,
                     conflict_checkIn = split_T_0 (toISOString (checkIn conflicting)),
                     conflict_checkOut = split_T_0 (toISOString (checkOut conflicting))\<rparr>\<rparr>)
           | Returns None \<Rightarrow>
               Inr \<lparr>adm_input = inp, adm_listingType = lt, adm_listingId = lid,
                    adm_checkIn = ci, adm_checkOut = co\<rparr>) = Inl (ConflictResponse d)"
    unfolding eq by simp
  show thesis
  proof (cases "hasDateConflict e s lid ci co None")
    case Throws
    with cs show ?thesis by (simp add: createFailed_def)
  next
    case (Returns r)
    show ?thesis
    proof (cases r)
      case None
      with cs Returns show ?thesis by simp
    next
      case (Some c)
      with cs Returns have "d = \<lparr>requestedCheckIn = input_checkIn inp,
          requestedCheckOut = input_checkOut inp,
          conflictingBooking =
            \<lparr>conflict_id = booking_id c,
             conflict_checkIn = split_T_0 (toISOString (checkIn c)),
             conflict_checkOut = split_T_0 (toISOString (checkOut c))\<rparr>\<rparr>"
        by simp
      moreover from Returns Some have "hasDateConflict e s lid ci co None = Returns (Some c)"
        by simp
      ultimately show ?thesis using i(2) dt by (intro that)
    qed
  qed
qed

lemma conflict_example:
  "createBooking exampleEnv (storeA Pending)
     (exampleInput ''homestay'' ''h1'' ''2025-06-12T14:30:00.000Z'' ''2025-06-18'') =
   (Inl (ConflictResponse
      \<lparr>requestedCheckIn = Some ''2025-06-12T14:30:00.000Z'',
       requestedCheckOut = Some ''2025-06-18'',
       conflictingBooking =
         \<lparr>conflict_id = 0, conflict_checkIn = ''2025-06-10'',
          conflict_checkOut = ''2025-06-15''\<rparr>\<rparr>), storeA Pending)"
  by (simp add: createBooking_example[OF exampleParse_values(3) exampleParse_values(5)]
      storeA_def bookingA_def exampleBooking_def conflictQuery_def
      split_T_0_toISOString isoDate_examples)

text \<open>
  Claim C7, as stated, fails: the conflict response carries the requested range as the
  strings of the request body, not as calendar days. A request whose check-in is
  \<^verbatim>\<open>2025-06-12T14:30:00.000Z\<close> gets that string back, while the calendar day of that
  date is \<^verbatim>\<open>2025-06-12\<close>.
\<close>

theorem conflict_payload_counterexample:
  "fst (createBooking exampleEnv (storeA Pending)
     (exampleInput ''homestay'' ''h1'' ''2025-06-12T14:30:00.000Z'' ''2025-06-18'')) =
   Inl (ConflictResponse
      \<lparr>requestedCheckIn = Some ''2025-06-12T14:30:00.000Z'',
       requestedCheckOut = Some ''2025-06-18'',
       conflictingBooking =
         \<lparr>conflict_id = 0, conflict_checkIn = ''2025-06-10'',
          conflict_checkOut = ''2025-06-15''\<rparr>\<rparr>) \<and>
   parseDate exampleEnv ''2025-06-12T14:30:00.000Z'' = Some 1749738600000 \<and>
   toISOString 1749738600000 = ''2025-06-12T14:30:00.000Z'' \<and>
   split_T_0 (toISOString 1749738600000) = ''2025-06-12'' \<and>
   ''2025-06-12T14:30:00.000Z'' \<noteq> ''2025-06-12''"
  by (simp add: conflict_example exampleEnv_fields exampleParse_values
      toISOString_example split_T_0_def)

text \<open>
  Claim C7, amended. A creation request rejected by the conflict check changes nothing in
  the store, and its response carries the requested check-in and check-out exactly as the
  request body gave them, and a summary of a stored booking that conflicts with the
  request: its id and its check-in and check-out as calendar days \<open>isoDate\<close>
  (year, month and day of the UTC day). The time of day is stripped from these two: every
  instant of the same day serializes to the same string.
\<close>

theorem conflict_response_payload:
  assumes "createBooking e s inp = (Inl (ConflictResponse d), s')"
  shows "s' = s \<and>
         requestedCheckIn d = input_checkIn inp \<and>
         requestedCheckOut d = input_checkOut inp \<and>
         (\<exists>c\<in>set (bookings s). \<exists>lid ci co.
            input_listingId inp = Some lid \<and>
            newDate e (input_checkIn inp) = Some ci \<and>
            newDate e (input_checkOut inp) = Some co \<and>
            listingId c = lid \<and> status c \<noteq> Cancelled \<and>
            checkIn c < co \<and> checkOut c > ci \<and>
            conflict_id (conflictingBooking d) = booking_id c \<and>
            conflict_checkIn (conflictingBooking d) = isoDate (checkIn c) \<and>
            conflict_checkOut (conflictingBooking d) = isoDate (checkOut c) \<and>
            (\<forall>t. t div msPerDay = checkIn c div msPerDay \<longrightarrow>
                 split_T_0 (toISOString t) = conflict_checkIn (conflictingBooking d)) \<and>
            (\<forall>t. t div msPerDay = checkOut c div msPerDay \<longrightarrow>
                 split_T_0 (toISOString t) = conflict_checkOut (conflictingBooking d)))"
proof -
  from createBooking_Conflict[OF assms] have adm: "checkAdmission e s inp = Inl (ConflictResponse d)"
    and s': "s' = s" by simp_all
  from adm obtain lid ci co c where
    i: "input_listingId inp = Some lid"
       "newDate e (input_checkIn inp) = Some ci" "newDate e (input_checkOut inp) = Some co"
    and h: "hasDateConflict e s lid ci co None = Returns (Some c)"
    and d: "d = \<lparr>requestedCheckIn = input_checkIn inp,
                requestedCheckOut = input_checkOut inp,
                conflictingBooking =
                  \<lparr>conflict_id = booking_id c,
                   conflict_checkIn = split_T_0 (toISOString (checkIn c)),
                   conflict_checkOut = split_T_0 (toISOString (checkOut c))\<rparr>\<rparr>"
    by (rule checkAdmission_Conflict)
  from h have f: "find (conflictQuery lid ci co None) (bookings s) = Some c"
    by (auto simp: hasDateConflict_def BookingModel_findOne_def split: if_splits)
  then have c: "c \<in> set (bookings s)" "conflictQuery lid ci co None c"
    by (auto simp: find_Some_iff)
  from c(2) have q: "listingId c = lid" "status c \<noteq> Cancelled" "checkIn c < co" "checkOut c > ci"
    by (simp_all add: conflictQuery_def)
  have day: "\<forall>t. t div msPerDay = u div msPerDay \<longrightarrow> split_T_0 (toISOString t) = isoDate u"
    for u
    by (simp add: split_T_0_toISOString isoDate_def)
  have p: "requestedCheckIn d = input_checkIn inp" "requestedCheckOut d = input_checkOut inp"
    "conflict_id (conflictingBooking d) = booking_id c"
    "conflict_checkIn (conflictingBooking d) = isoDate (checkIn c)"
    "conflict_checkOut (conflictingBooking d) = isoDate (checkOut c)"
    by (simp_all add: d split_T_0_toISOString)
  have "\<exists>lid ci co.
            input_listingId inp = Some lid \<and>
            newDate e (input_checkIn inp) = Some ci \<and>
            newDate e (input_checkOut inp) = Some co \<and>
            listingId c = lid \<and> status c \<noteq> Cancelled \<and>
            checkIn c < co \<and> checkOut c > ci \<and>
            conflict_id (conflictingBooking d) = booking_id c \<and>
            conflict_checkIn (conflictingBooking d) = isoDate (checkIn c) \<and>
            conflict_checkOut (conflictingBooking d) = isoDate (checkOut c) \<and>
            (\<forall>t. t div msPerDay = checkIn c div msPerDay \<longrightarrow>
                 split_T_0 (toISOString t) = conflict_checkIn (conflictingBooking d)) \<and>
            (\<forall>t. t div msPerDay = checkOut c div msPerDay \<longrightarrow>
                 split_T_0 (toISOString t) = conflict_checkOut (conflictingBooking d))"
    unfolding p(3-5)
    using i q day[of "checkIn c"] day[of "checkOut c"]
    by (intro exI[of _ lid] exI[of _ ci] exI[of _ co] conjI) simp_all
  with c(1) have "\<exists>c\<in>set (bookings s). \<exists>lid ci co.
            input_listingId inp = Some lid \<and>
            newDate e (input_checkIn inp) = Some ci \<and>
            newDate e (input_checkOut inp) = Some co \<and>
            listingId c = lid \<and> status c \<noteq> Cancelled \<and>
            checkIn c < co \<and> checkOut c > ci \<and>
            conflict_id (conflictingBooking d) = booking_id c \<and>
            conflict_checkIn (conflictingBooking d) = isoDate (checkIn c) \<and>
            conflict_checkOut (conflictingBooking d) = isoDate (checkOut c) \<and>
            (\<forall>t. t div msPerDay = checkIn c div msPerDay \<longrightarrow>
                 split_T_0 (toISOString t) = conflict_checkIn (conflictingBooking d)) \<and>
            (\<forall>t. t div msPerDay = checkOut c div msPerDay \<longrightarrow>
                 split_T_0 (toISOString t) = conflict_checkOut (conflictingBooking d))"
    by (rule rev_bexI)
  with s' p(1,2) show ?thesis by (intro conjI)
qed

theorem conflict_response_payload_witness:
  "conflict_checkIn (conflictingBooking
      \<lparr>requestedCheckIn = Some ''2025-06-12T14:30:00.000Z'',
       requestedCheckOut = Some ''2025-06-18'',
       conflictingBooking =
         \<lparr>conflict_id = 0, conflict_checkIn = ''2025-06-10'',
          conflict_checkOut = ''2025-06-15''\<rparr>\<rparr>) = isoDate 1749513600000 \<and>
   isoDate 1749513600000 = ''2025-06-10''"
proof -
  let ?d = "\<lparr>requestedCheckIn = Some ''2025-06-12T14:30:00.000Z'',
       requestedCheckOut = Some ''2025-06-18'',
       conflictingBooking =
         \<lparr>conflict_id = 0, conflict_checkIn = ''2025-06-10'',
          conflict_checkOut = ''2025-06-15''\<rparr>\<rparr>"
  have b: "set (bookings (storeA Pending)) = {bookingA Pending}"
    "checkIn (bookingA Pending) = 1749513600000"
    by (simp_all add: storeA_def bookingA_def exampleBooking_def)
  from conflict_response_payload[OF conflict_example]
  have "conflict_checkIn (conflictingBooking ?d) = isoDate (checkIn (bookingA Pending))"
    unfolding b(1) by (elim conjE bexE exE) simp
  then show ?thesis by (simp add: b(2) isoDate_examples)
qed

subsection \<open>Concurrent creation requests\<close>

lemma checkAdmission_example:
  assumes "exampleParse ci = Some a" "exampleParse co = Some b" "1735689600000 < a" "a < b"
    and "find (conflictQuery ''h1'' a b None) (bookings s) = None"
  shows "checkAdmission exampleEnv s (exampleInput ''homestay'' ''h1'' ci co) =
    Inr \<lparr>adm_input = exampleInput ''homestay'' ''h1'' ci co,
         adm_listingType = ''homestay'', adm_listingId = ''h1'',
         adm_checkIn = a, adm_checkOut = b\<rparr>"
proof -
  from assms(1,2) have ne: "ci \<noteq> []" "co \<noteq> []"
    by (auto simp: exampleParse_def)
  then obtain c cs d ds where s: "ci = c # cs" "co = d # ds"
    by (cases ci; cases co) auto
  have fe: "fieldErrors (exampleInput ''homestay'' ''h1'' ci co) = []"
    unfolding s by (rule exampleInput_valid)
  have c: "hasDateConflict exampleEnv s ''h1'' a b None = Returns None"
    using assms(5) by (simp add: hasDateConflict_def BookingModel_findOne_def exampleEnv_fields)
  show ?thesis
    using assms(1-4)
    by (subst checkAdmission_dates[where lt="''homestay''" and lid="''h1''" and ci=a and co=b])
       (simp_all add: fe exampleInput_fields newDate_def exampleEnv_fields c)
qed

lemma getListingTitle_example: "getListingTitle exampleEnv ''homestay'' ''h1'' = Some ''River View''"
  by (simp add: getListingTitle_def optionalField_def exampleEnv_def)

lemma race_admitted:
  "checkAdmission exampleEnv emptyStore raceRequest1 = Inr raceAdmission1"
  "checkAdmission exampleEnv emptyStore raceRequest2 = Inr raceAdmission2"
  unfolding raceRequest1_def raceRequest2_def raceAdmission1_def raceAdmission2_def
  by (rule checkAdmission_example[OF exampleParse_values(1) exampleParse_values(4)],
      simp_all add: emptyStore_def)
     (rule checkAdmission_example[OF exampleParse_values(2) exampleParse_values(5)],
      simp_all add: emptyStore_def)

lemma race_persisted:
  "persistBooking exampleEnv emptyStore raceAdmission1 = (Inr raceBooking1, raceStore1)"
  "persistBooking exampleEnv raceStore1 raceAdmission2 = (Inr raceBooking2, raceStore)"
  by (simp_all add: persistBooking_Saved exampleEnv_fields getListingTitle_example
      newBooking_def emptyStore_def raceStore1_def raceStore_def raceAdmission1_def
      raceAdmission2_def raceBooking1_def raceBooking2_def exampleBooking_def
      raceRequest1_def raceRequest2_def exampleInput_def)

text \<open>
  Claim C3, as stated, fails: \<^verbatim>\<open>createBooking\<close> holds no lock and opens no transaction
  between \<^verbatim>\<open>await hasDateConflict(...)\<close> and \<^verbatim>\<open>await newBooking.save()\<close>. Two
  requests for overlapping stays on one listing can both pass the conflict check on the
  empty store before either is saved; then both are saved, both answer with success, and
  the store violates the invariant.
\<close>

theorem concurrent_creation_counterexample:
  "step\<^sup>*\<^sup>*
     (emptyStore, [Requested exampleEnv raceRequest1, Requested exampleEnv raceRequest2])
     (raceStore, [Finished (Inr raceBooking1), Finished (Inr raceBooking2)]) \<and>
   input_listingId raceRequest1 = input_listingId raceRequest2 \<and>
   listingId raceBooking1 = listingId raceBooking2 \<and>
   checkIn raceBooking1 < checkOut raceBooking2 \<and>
   checkIn raceBooking2 < checkOut raceBooking1 \<and>
   \<not> noOverlap (bookings raceStore)"
proof -
  let ?e = exampleEnv
  have s1: "step (emptyStore, [Requested ?e raceRequest1, Requested ?e raceRequest2])
                 (emptyStore, [Admitted ?e raceAdmission1, Requested ?e raceRequest2])"
    using step.admitted[of 0 "[Requested ?e raceRequest1, Requested ?e raceRequest2]"
                           ?e raceRequest1 emptyStore raceAdmission1] race_admitted(1)
    by simp
  have s2: "step (emptyStore, [Admitted ?e raceAdmission1, Requested ?e raceRequest2])
                 (emptyStore, [Admitted ?e raceAdmission1, Admitted ?e raceAdmission2])"
    using step.admitted[of 1 "[Admitted ?e raceAdmission1, Requested ?e raceRequest2]"
                           ?e raceRequest2 emptyStore raceAdmission2] race_admitted(2)
    by simp
  have s3: "step (emptyStore, [Admitted ?e raceAdmission1, Admitted ?e raceAdmission2])
                 (raceStore1, [Finished (Inr raceBooking1), Admitted ?e raceAdmission2])"
    using step.persisted[of 0 "[Admitted ?e raceAdmission1, Admitted ?e raceAdmission2]" ?e raceAdmission1 emptyStore
                            "Inr raceBooking1" raceStore1] race_persisted(1)
    by simp
  have s4: "step (raceStore1, [Finished (Inr raceBooking1), Admitted ?e raceAdmission2])
                 (raceStore, [Finished (Inr raceBooking1), Finished (Inr raceBooking2)])"
    using step.persisted[of 1 "[Finished (Inr raceBooking1), Admitted ?e raceAdmission2]" ?e raceAdmission2 raceStore1
                            "Inr raceBooking2" raceStore] race_persisted(2)
    by simp
  from s1 s2 s3 s4 have run: "step\<^sup>*\<^sup>*
     (emptyStore, [Requested ?e raceRequest1, Requested ?e raceRequest2])
     (raceStore, [Finished (Inr raceBooking1), Finished (Inr raceBooking2)])"
    by (meson rtranclp.rtrancl_into_rtrancl rtranclp.rtrancl_refl)
  have b: "listingId raceBooking1 = ''h1''" "listingId raceBooking2 = ''h1''"
    "checkIn raceBooking1 = 1749513600000" "checkOut raceBooking1 = 1749945600000"
    "checkIn raceBooking2 = 1749686400000" "checkOut raceBooking2 = 1750204800000"
    "status raceBooking1 = Pending" "status raceBooking2 = Pending"
    by (simp_all add: raceBooking1_def raceBooking2_def exampleBooking_def)
  have bad: "\<not> noOverlap (bookings raceStore)"
  proof
    assume inv: "noOverlap (bookings raceStore)"
    have n: "(0::nat) < length (bookings raceStore)" "Suc 0 < length (bookings raceStore)"
      "bookings raceStore ! 0 = raceBooking1" "bookings raceStore ! Suc 0 = raceBooking2"
      by (simp_all add: raceStore_def)
    from inv n(1,2) have "(0::nat) \<noteq> Suc 0 \<and>
        listingId (bookings raceStore ! 0) = listingId (bookings raceStore ! Suc 0) \<and>
        status (bookings raceStore ! 0) \<noteq> Cancelled \<and>
        status (bookings raceStore ! Suc 0) \<noteq> Cancelled
        \<longrightarrow> disjointStays (bookings raceStore ! 0) (bookings raceStore ! Suc 0)"
      unfolding noOverlap_def by blast
    then have "disjointStays raceBooking1 raceBooking2"
      by (simp add: n b)
    then show False by (simp add: disjointStays_iff b)
  qed
  have l: "input_listingId raceRequest1 = input_listingId raceRequest2"
    by (simp add: raceRequest1_def raceRequest2_def exampleInput_fields)
  from run l bad show ?thesis by (simp add: b)
qed

text \<open>
  Claim C3, amended. When two creation requests for the same listing with overlapping
  date ranges are handled one after the other, the second starting on the store that the
  first left, at most one succeeds: after a successful creation the other request is
  answered with an error and leaves the store unchanged.
\<close>

theorem sequential_creation_exclusive:
  assumes first: "createBooking e1 s r1 = (Inr b1, s1)"
    and same: "input_listingId r2 = input_listingId r1"
    and r1: "newDate e1 (input_checkIn r1) = Some c1" "newDate e1 (input_checkOut r1) = Some d1"
    and r2: "newDate e2 (input_checkIn r2) = Some c2" "newDate e2 (input_checkOut r2) = Some d2"
    and overlap: "c1 < d2" "c2 < d1"
  shows "\<exists>err. createBooking e2 s1 r2 = (Inl err, s1)"
proof -
  note B = createBooking_admitted[OF first]
  from B r1 have b1: "checkIn b1 = c1" "checkOut b1 = d1" "status b1 \<noteq> Cancelled"
    "input_listingId r1 = Some (listingId b1)" "b1 \<in> set (bookings s1)"
    by simp_all
  from b1(5,3) show ?thesis
  proof (rule createBooking_rejects_overlap)
    show "input_listingId r2 = Some (listingId b1)" using same b1(4) by simp
    show "newDate e2 (input_checkIn r2) = Some c2" "newDate e2 (input_checkOut r2) = Some d2"
      by (rule r2)+
    show "checkIn b1 < d2" "c2 < checkOut b1" using overlap b1(1,2) by simp_all
  qed
qed

theorem sequential_creation_exclusive_witness:
  "createBooking exampleEnv emptyStore raceRequest1 = (Inr raceBooking1, raceStore1) \<and>
   (\<exists>err. createBooking exampleEnv raceStore1 raceRequest2 = (Inl err, raceStore1))"
proof -
  have first: "createBooking exampleEnv emptyStore raceRequest1 = (Inr raceBooking1, raceStore1)"
    by (simp add: createBooking_def race_admitted race_persisted)
  have h: "input_listingId raceRequest2 = input_listingId raceRequest1"
    "newDate exampleEnv (input_checkIn raceRequest1) = Some 1749513600000"
    "newDate exampleEnv (input_checkOut raceRequest1) = Some 1749945600000"
    "newDate exampleEnv (input_checkIn raceRequest2) = Some 1749686400000"
    "newDate exampleEnv (input_checkOut raceRequest2) = Some 1750204800000"
    "(1749513600000::int) < 1750204800000" "(1749686400000::int) < 1749945600000"
    by (simp_all add: raceRequest1_def raceRequest2_def exampleInput_fields newDate_def
        exampleEnv_fields exampleParse_values)
  from sequential_creation_exclusive[OF first h] first show ?thesis by (intro conjI)
qed

lemma late_persisted:
  "persistBooking exampleEnv emptyStore raceAdmission2 = (Inr lateBooking2, lateStore1)"
  "persistBooking exampleEnv lateStore1 raceAdmission1 = (Inr lateBooking1, lateStore)"
  by (simp_all add: persistBooking_Saved exampleEnv_fields getListingTitle_example
      newBooking_def emptyStore_def lateStore1_def lateStore_def raceAdmission1_def
      raceAdmission2_def lateBooking1_def lateBooking2_def exampleBooking_def
      raceRequest1_def raceRequest2_def exampleInput_def)

lemma late_bookings:
  "listingId lateBooking1 = ''h1''" "listingId lateBooking2 = ''h1''"
  "checkIn lateBooking1 = 1749513600000" "checkOut lateBooking1 = 1749945600000"
  "checkIn lateBooking2 = 1749686400000" "checkOut lateBooking2 = 1750204800000"
  "status lateBooking1 = Pending" "status lateBooking2 = Pending"
  by (simp_all add: lateBooking1_def lateBooking2_def exampleBooking_def)

text \<open>
  Claim C1, as stated, fails: not every sequence of successful \<^verbatim>\<open>createBooking\<close>
  operations preserves the invariant. The empty store satisfies it; two creation requests
  for overlapping stays on one listing both pass the conflict check before either insert,
  the second then persists before the first, both answer with success, and the two stored
  bookings, on the same listing and not cancelled, have stays that are not disjoint.
\<close>

theorem interleaved_invariant_counterexample:
  "noOverlap (bookings emptyStore) \<and>
   step\<^sup>*\<^sup>*
     (emptyStore, [Requested exampleEnv raceRequest1, Requested exampleEnv raceRequest2])
     (lateStore, [Finished (Inr lateBooking1), Finished (Inr lateBooking2)]) \<and>
   bookings lateStore = [lateBooking2, lateBooking1] \<and>
   listingId lateBooking1 = listingId lateBooking2 \<and>
   status lateBooking1 \<noteq> Cancelled \<and> status lateBooking2 \<noteq> Cancelled \<and>
   \<not> disjointStays lateBooking2 lateBooking1 \<and>
   \<not> noOverlap (bookings lateStore)"
proof -
  let ?e = exampleEnv
  have init: "noOverlap (bookings emptyStore)"
    by (simp add: noOverlap_def emptyStore_def)
  have s1: "step (emptyStore, [Requested ?e raceRequest1, Requested ?e raceRequest2])
                 (emptyStore, [Admitted ?e raceAdmission1, Requested ?e raceRequest2])"
    using step.admitted[of 0 "[Requested ?e raceRequest1, Requested ?e raceRequest2]"
                           ?e raceRequest1 emptyStore raceAdmission1] race_admitted(1)
    by simp
  have s2: "step (emptyStore, [Admitted ?e raceAdmission1, Requested ?e raceRequest2])
                 (emptyStore, [Admitted ?e raceAdmission1, Admitted ?e raceAdmission2])"
    using step.admitted[of 1 "[Admitted ?e raceAdmission1, Requested ?e raceRequest2]"
                           ?e raceRequest2 emptyStore raceAdmission2] race_admitted(2)
    by simp
  have s3: "step (emptyStore, [Admitted ?e raceAdmission1, Admitted ?e raceAdmission2])
                 (lateStore1, [Admitted ?e raceAdmission1, Finished (Inr lateBooking2)])"
    using step.persisted[of 1 "[Admitted ?e raceAdmission1, Admitted ?e raceAdmission2]"
                            ?e raceAdmission2 emptyStore "Inr lateBooking2" lateStore1]
          late_persisted(1)
    by simp
  have s4: "step (lateStore1, [Admitted ?e raceAdmission1, Finished (Inr lateBooking2)])
                 (lateStore, [Finished (Inr lateBooking1), Finished (Inr lateBooking2)])"
    using step.persisted[of 0 "[Admitted ?e raceAdmission1, Finished (Inr lateBooking2)]"
                            ?e raceAdmission1 lateStore1 "Inr lateBooking1" lateStore]
          late_persisted(2)
    by simp
  from s1 s2 s3 s4 have run: "step\<^sup>*\<^sup>*
     (emptyStore, [Requested ?e raceRequest1, Requested ?e raceRequest2])
     (lateStore, [Finished (Inr lateBooking1), Finished (Inr lateBooking2)])"
    by (meson rtranclp.rtrancl_into_rtrancl rtranclp.rtrancl_refl)
  have overlap: "\<not> disjointStays lateBooking2 lateBooking1"
    by (simp add: disjointStays_iff late_bookings)
  have bad: "\<not> noOverlap (bookings lateStore)"
  proof
    assume inv: "noOverlap (bookings lateStore)"
    have n: "(0::nat) < length (bookings lateStore)" "Suc 0 < length (bookings lateStore)"
      "bookings lateStore ! 0 = lateBooking2" "bookings lateStore ! Suc 0 = lateBooking1"
      by (simp_all add: lateStore_def)
    from inv n(1,2) have "(0::nat) \<noteq> Suc 0 \<and>
        listingId (bookings lateStore ! 0) = listingId (bookings lateStore ! Suc 0) \<and>
        status (bookings lateStore ! 0) \<noteq> Cancelled \<and>
        status (bookings lateStore ! Suc 0) \<noteq> Cancelled
        \<longrightarrow> disjointStays (bookings lateStore ! 0) (bookings lateStore ! Suc 0)"
      unfolding noOverlap_def by blast
    then have "disjointStays lateBooking2 lateBooking1"
      by (simp add: n late_bookings)
    with overlap show False ..
  qed
  have st: "bookings lateStore = [lateBooking2, lateBooking1]"
    by (simp add: lateStore_def)
  from init run st overlap bad show ?thesis by (simp add: late_bookings)
qed

end
